theory Spec2Isabelle
  imports Complex_Main "HOL-Library.Char_ord" "HOL-Library.List_Lexorder"
begin

section \<open>Conventions of the embedding\<close>

text \<open>
  The TypeScript sources are embedded function by function, keeping their names.
  A JavaScript string is a \<^typ>\<open>string\<close>, one \<^typ>\<open>char\<close> per code unit. A
  JavaScript number is the rational number that a finite double denotes, a
  \<^typ>\<open>rat\<close> (\<open>NaN\<close> and the infinities are outside the model), or an
  \<^typ>\<open>int\<close> where the source only counts or compares whole numbers. Where a
  function computes with doubles and a property depends on how the results are
  rounded, the arithmetic operations are a parameter of the function, and binary64
  is one instance of them; elsewhere the arithmetic is exact.
  Built-ins of the language whose result a property does not depend on
  (\<open>Number\<close>, \<open>String\<close> of a number or of a built-in function, \<open>JSON.stringify\<close>,
  \<open>toLowerCase\<close>) are parameters of the functions that call them, so that every
  theorem holds for each behaviour they can have. An object that the source builds
  and reads by key is modelled with its own properties and its prototype, since
  reading and writing a key go through the prototype.
\<close>

section \<open>Query validation: \<open>isValidJsonPath\<close>\<close>

text \<open>\<open>query.match(/[\[\]()]/g)\<close> keeps the bracket and parenthesis characters in order.\<close>

definition is_bracket :: "char \<Rightarrow> bool" where
  "is_bracket c = (c = CHR ''['' \<or> c = CHR '']'' \<or> c = CHR ''('' \<or> c = CHR '')'')"

text \<open>\<open>String.prototype.startsWith\<close>.\<close>

definition startsWith :: "string \<Rightarrow> string \<Rightarrow> bool" where
  "startsWith s p = (take (length p) s = p)"

text \<open>
  The \<open>for (const bracket of brackets)\<close> loop with its counter \<open>depth\<close>; the early
  \<open>return false\<close> is the \<open>False\<close> branch, the final \<open>return depth === 0\<close> the
  empty case.
\<close>

fun scan_brackets :: "string \<Rightarrow> int \<Rightarrow> bool" where
  "scan_brackets [] depth = (depth = 0)"
| "scan_brackets (bracket # brackets) depth =
     (let d1 = (if bracket = CHR ''['' \<or> bracket = CHR ''('' then depth + 1 else depth);
          d2 = (if bracket = CHR '']'' \<or> bracket = CHR '')'' then d1 - 1 else d1)
      in if d2 < 0 then False else scan_brackets brackets d2)"

definition isValidJsonPath :: "string \<Rightarrow> bool" where
  "isValidJsonPath query =
     (if query = [] then False
      else if \<not> startsWith query ''$'' \<and> \<not> startsWith query ''@'' then False
      else scan_brackets (filter is_bracket query) 0)"

text \<open>
  The validator as the specification words it: every character contributes to a depth
  counter (\<open>+1\<close> for an opening, \<open>-1\<close> for a closing bracket or parenthesis, nothing
  otherwise); the text is balanced when the counter is never negative after any
  prefix and is zero at the end.
\<close>

definition bracket_delta :: "char \<Rightarrow> int" where
  "bracket_delta c =
     (if c = CHR ''['' \<or> c = CHR ''('' then 1
      else if c = CHR '']'' \<or> c = CHR '')'' then - 1 else 0)"

definition running_depth :: "string \<Rightarrow> int" where
  "running_depth cs = sum_list (map bracket_delta cs)"

definition spec_balanced :: "string \<Rightarrow> bool" where
  "spec_balanced text =
     (list_all (\<lambda>n. 0 \<le> running_depth (take n text)) [0 ..< Suc (length text)]
      \<and> running_depth text = 0)"

definition spec_isValidQuery :: "string \<Rightarrow> bool" where
  "spec_isValidQuery text =
     (text \<noteq> [] \<and> (hd text = CHR ''$'' \<or> hd text = CHR ''@'') \<and> spec_balanced text)"


section \<open>Query synthesis: \<open>generateFilterExpression\<close>, \<open>generateArraySlice\<close>, \<open>buildJsonPathQuery\<close>\<close>

datatype LogicalOperator = AND | OR

text \<open>
  \<open>FilterCondition\<close>. The fields \<open>id\<close> and \<open>value\<close> are written \<open>cond_id\<close> and
  \<open>cond_value\<close>. The operator is kept as the string it is at run time: the declared
  type \<open>OperatorType\<close> lists nine of them, and the \<open>switch\<close> has a \<open>default\<close>
  branch for any other (the reverse parser casts \<open>=~\<close> into the field).
\<close>

record FilterCondition =
  cond_id :: string
  property :: string
  operator :: string
  cond_value :: string
  logicalOperator :: "LogicalOperator option"

definition OperatorType :: "string list" where
  "OperatorType = [''=='', ''!='', ''<'', ''>'', ''<='', ''>='', ''contains'', ''regex'', ''exists'']"

text \<open>\<open>ArraySlice\<close>: three optional integers (\<open>start\<close>, \<open>end\<close>, \<open>step\<close>).\<close>

record ArraySlice =
  slice_start :: "int option"
  slice_end :: "int option"
  slice_step :: "int option"

text \<open>\<open>Array.prototype.map\<close> with a callback that also takes the index.\<close>

fun map_index :: "('a \<Rightarrow> nat \<Rightarrow> 'b) \<Rightarrow> nat \<Rightarrow> 'a list \<Rightarrow> 'b list" where
  "map_index f i [] = []"
| "map_index f i (x # xs) = f x i # map_index f (Suc i) xs"

text \<open>\<open>Array.prototype.join\<close> on a list of strings.\<close>

fun join :: "string \<Rightarrow> string list \<Rightarrow> string" where
  "join sep [] = []"
| "join sep [x] = x"
| "join sep (x # y # ys) = x @ sep @ join sep (y # ys)"

definition endsWith :: "string \<Rightarrow> string \<Rightarrow> bool" where
  "endsWith s p = (length p \<le> length s \<and> drop (length s - length p) s = p)"

text \<open>
  The callback of \<open>filters.map\<close> in \<open>generateFilterExpression\<close>. Its first argument
  stands for \<open>isNaN(Number(_))\<close> on strings.
\<close>

definition filter_condition :: "(string \<Rightarrow> bool) \<Rightarrow> FilterCondition \<Rightarrow> nat \<Rightarrow> string" where
  "filter_condition numberIsNaN flt index =
     (let condition =
            (if index > 0 \<and> logicalOperator flt \<noteq> None
             then (if logicalOperator flt = Some AND then '' && '' else '' || '')
             else '''');
          prop = ''@.'' @ property flt;
          v = (if numberIsNaN (cond_value flt)
               then [CHR 0x27] @ cond_value flt @ [CHR 0x27] else cond_value flt);
          op = operator flt
      in if op = ''=='' then condition @ prop @ '' == '' @ v
         else if op = ''!='' then condition @ prop @ '' != '' @ v
         else if op = ''<'' then condition @ prop @ '' < '' @ v
         else if op = ''>'' then condition @ prop @ '' > '' @ v
         else if op = ''<='' then condition @ prop @ '' <= '' @ v
         else if op = ''>='' then condition @ prop @ '' >= '' @ v
         else if op = ''contains'' then condition @ prop @ '' =~ /'' @ cond_value flt @ ''/i''
         else if op = ''regex'' then condition @ prop @ '' =~ /'' @ cond_value flt @ ''/''
         else if op = ''exists'' then condition @ prop
         else condition @ prop @ '' == '' @ v)"

definition generateFilterExpression :: "(string \<Rightarrow> bool) \<Rightarrow> FilterCondition list \<Rightarrow> string" where
  "generateFilterExpression numberIsNaN filters =
     (if length filters = 0 then ''''
      else let conditions = join '''' (map_index (filter_condition numberIsNaN) 0 filters)
           in ''[?('' @ conditions @ '')]'')"

text \<open>
  Decimal rendering of a whole number, as a template literal renders a number that is
  an integer of magnitude below \<open>10^21\<close>.
\<close>

fun string_of_nat :: "nat \<Rightarrow> string" where
  "string_of_nat n =
     (if n < 10 then [''0123456789'' ! n]
      else string_of_nat (n div 10) @ [''0123456789'' ! (n mod 10)])"

declare string_of_nat.simps [simp del]

definition string_of_int :: "int \<Rightarrow> string" where
  "string_of_int i = (if i < 0 then ''-'' @ string_of_nat (nat (- i)) else string_of_nat (nat i))"

text \<open>
  \<open>slice.start ?? ''\<close> is a number or the empty string; the option keeps the two
  apart (\<open>None\<close> is the empty string), so that \<open>start !== ''\<close> is \<open>start \<noteq> None\<close>.
  \<open>if (step)\<close> is the truthiness of an optional number: present and not zero.
\<close>

definition slice_bound :: "int option \<Rightarrow> string" where
  "slice_bound b = (case b of None \<Rightarrow> '''' | Some n \<Rightarrow> string_of_int n)"

definition generateArraySlice :: "ArraySlice \<Rightarrow> string" where
  "generateArraySlice slice =
     (let start = slice_start slice; end = slice_end slice; step = slice_step slice
      in if step \<noteq> None \<and> step \<noteq> Some 0
         then ''['' @ slice_bound start @ '':'' @ slice_bound end @ '':'' @ string_of_int (the step) @ '']''
         else if start \<noteq> None \<or> end \<noteq> None
         then ''['' @ slice_bound start @ '':'' @ slice_bound end @ '']''
         else ''[*]'')"

definition buildJsonPathQuery ::
  "(string \<Rightarrow> bool) \<Rightarrow> string \<Rightarrow> string list \<Rightarrow> FilterCondition list \<Rightarrow> ArraySlice option \<Rightarrow> bool \<Rightarrow> string" where
  "buildJsonPathQuery numberIsNaN rootPath selectedPath filters arraySlice recursiveDescent =
     (let query0 = (if rootPath = '''' then ''$'' else rootPath);
          query1 = (if recursiveDescent \<and> length selectedPath > 0 then query0 @ ''..'' else query0);
          query2 =
            (if length selectedPath > 0
             then (let pathStr = join ''.'' selectedPath
                   in if endsWith query1 ''$'' then query1 @ ''.'' @ pathStr
                      else if \<not> endsWith query1 ''..'' then query1 @ ''.'' @ pathStr
                      else query1 @ pathStr)
             else query1);
          query3 = (case arraySlice of None \<Rightarrow> query2 | Some s \<Rightarrow> query2 @ generateArraySlice s);
          query4 = (if length filters > 0 then query3 @ generateFilterExpression numberIsNaN filters
                    else query3)
      in query4)"

text \<open>
  \<open>Number(s)\<close> on a string is \<open>NaN\<close> unless the string, with white space trimmed,
  is empty or a \<open>StrNumericLiteral\<close> of ECMA-262: a signed decimal literal
  (\<open>Infinity\<close>, digits with an optional fraction and exponent) or an unsigned
  hexadecimal, octal or binary integer literal.
\<close>

definition is_digit :: "char \<Rightarrow> bool" where
  "is_digit c = (c \<in> set ''0123456789'')"

definition js_whitespace :: "char \<Rightarrow> bool" where
  "js_whitespace c = (c \<in> set [CHR 0x09, CHR 0x0A, CHR 0x0B, CHR 0x0C, CHR 0x0D, CHR 0x20, CHR 0xA0])"

definition trim :: "string \<Rightarrow> string" where
  "trim s = rev (dropWhile js_whitespace (rev (dropWhile js_whitespace s)))"

definition strip_sign :: "string \<Rightarrow> string" where
  "strip_sign s = (case s of [] \<Rightarrow> [] | c # cs \<Rightarrow> if c = CHR ''+'' \<or> c = CHR ''-'' then cs else s)"

definition exponent_part_opt :: "string \<Rightarrow> bool" where
  "exponent_part_opt s =
     (case s of [] \<Rightarrow> True
      | c # cs \<Rightarrow> (c = CHR ''e'' \<or> c = CHR ''E'') \<and> strip_sign cs \<noteq> [] \<and> list_all is_digit (strip_sign cs))"

definition unsigned_decimal_literal :: "string \<Rightarrow> bool" where
  "unsigned_decimal_literal s =
     (s = ''Infinity'' \<or>
      (let d1 = takeWhile is_digit s; r1 = dropWhile is_digit s
       in case r1 of
            [] \<Rightarrow> d1 \<noteq> []
          | c # r2 \<Rightarrow>
              if c = CHR ''.''
              then (d1 \<noteq> [] \<or> takeWhile is_digit r2 \<noteq> []) \<and> exponent_part_opt (dropWhile is_digit r2)
              else d1 \<noteq> [] \<and> exponent_part_opt r1))"

definition non_decimal_integer_literal :: "string \<Rightarrow> bool" where
  "non_decimal_integer_literal s =
     (case s of
        z # x # ds \<Rightarrow>
          z = CHR ''0'' \<and> ds \<noteq> [] \<and>
          ((x \<in> set ''xX'' \<and> list_all (\<lambda>c. c \<in> set ''0123456789abcdefABCDEF'') ds) \<or>
           (x \<in> set ''oO'' \<and> list_all (\<lambda>c. c \<in> set ''01234567'') ds) \<or>
           (x \<in> set ''bB'' \<and> list_all (\<lambda>c. c \<in> set ''01'') ds))
      | _ \<Rightarrow> False)"

definition Number_isNaN :: "string \<Rightarrow> bool" where
  "Number_isNaN s =
     (let t = trim s
      in \<not> (t = [] \<or> non_decimal_integer_literal t \<or> unsigned_decimal_literal (strip_sign t)))"

text \<open>
  The filter clause as the specification words it: the comparison value is bare when
  it is numeric and in single quotes otherwise; each operator has its fragment; every
  condition after the first is prefixed with the separator of its logical operator.
  The last branch of \<open>spec_fragment\<close> is the fragment of \<open>exists\<close>, the only
  operator of \<open>OperatorType\<close> left there; the separator of a condition is read
  from its logical operator, which the conditions after the first are assumed to carry.
\<close>

definition spec_comparison_value :: "(string \<Rightarrow> bool) \<Rightarrow> string \<Rightarrow> string" where
  "spec_comparison_value numberIsNaN v = (if \<not> numberIsNaN v then v else [CHR 0x27] @ v @ [CHR 0x27])"

definition spec_fragment :: "(string \<Rightarrow> bool) \<Rightarrow> FilterCondition \<Rightarrow> string" where
  "spec_fragment numberIsNaN c =
     (if operator c \<in> set [''=='', ''!='', ''<'', ''>'', ''<='', ''>='']
      then ''@.'' @ property c @ '' '' @ operator c @ '' '' @ spec_comparison_value numberIsNaN (cond_value c)
      else if operator c = ''contains'' then ''@.'' @ property c @ '' =~ /'' @ cond_value c @ ''/i''
      else if operator c = ''regex'' then ''@.'' @ property c @ '' =~ /'' @ cond_value c @ ''/''
      else ''@.'' @ property c)"

fun spec_separator :: "LogicalOperator \<Rightarrow> string" where
  "spec_separator AND = '' && ''"
| "spec_separator OR = '' || ''"

definition spec_filter_clause :: "(string \<Rightarrow> bool) \<Rightarrow> FilterCondition list \<Rightarrow> string" where
  "spec_filter_clause numberIsNaN filters =
     ''[?('' @ spec_fragment numberIsNaN (hd filters)
       @ concat (map (\<lambda>c. spec_separator (the (logicalOperator c)) @ spec_fragment numberIsNaN c) (tl filters))
       @ '')]''"

text \<open>The slice notation as the specification words it.\<close>

definition spec_slice_notation :: "ArraySlice \<Rightarrow> string" where
  "spec_slice_notation s =
     (if slice_step s \<noteq> None
      then ''['' @ slice_bound (slice_start s) @ '':'' @ slice_bound (slice_end s) @ '':''
             @ slice_bound (slice_step s) @ '']''
      else if slice_start s \<noteq> None \<or> slice_end s \<noteq> None
      then ''['' @ slice_bound (slice_start s) @ '':'' @ slice_bound (slice_end s) @ '']''
      else ''[*]'')"


section \<open>Performance analytics: \<open>addMetric\<close>, \<open>calculateComplexityScore\<close>, \<open>calculateDistribution\<close>\<close>

text \<open>\<open>QueryMetrics\<close>; the field \<open>id\<close> is written \<open>metric_id\<close>.\<close>

record QueryMetrics =
  metric_id :: string
  query :: string
  executionTime :: rat
  resultCount :: int
  timestamp :: int
  complexityScore :: rat
  memoryUsage :: "rat option"



text \<open>\<open>String.prototype.includes\<close>.\<close>

fun str_includes :: "string \<Rightarrow> string \<Rightarrow> bool" where
  "str_includes [] p = (p = [])"
| "str_includes (c # cs) p = (startsWith (c # cs) p \<or> str_includes cs p)"

























section \<open>Schema analysis: \<open>analyzeSchema\<close>\<close>

text \<open>
  A JSON value as the functions receive it (\<open>unknown\<close>): the values of JSON and
  \<open>undefined\<close>. An object is the list of its entries in the order of
  \<open>Object.keys\<close>, with distinct keys; the values are finite trees, so a cyclic
  object is outside the model.
\<close>

datatype json =
    JNull
  | JUndefined
  | JBoolean bool
  | JNumber rat
  | JString string
  | JArray "json list"
  | JObject "(string \<times> json) list"

text \<open>\<open>FieldNode\<close>; the optional fields are options.\<close>

datatype FieldNode =
  FieldNode (node_name: string) (node_path: string) (node_type: string)
    (children: "FieldNode list option") (isArray: "bool option") (arrayItemType: "string option")

text \<open>\<open>SchemaAnalysis\<close> (\<open>fields\<close>, \<open>depth\<close>, \<open>totalFields\<close>).\<close>

record SchemaAnalysis =
  sa_fields :: "FieldNode list"
  sa_depth :: nat
  sa_totalFields :: nat

text \<open>The two counters that the closure \<open>analyzeValue\<close> updates.\<close>

record schema_counters =
  cnt_totalFields :: nat
  cnt_maxDepthReached :: nat

fun getType :: "json \<Rightarrow> string" where
  "getType JNull = ''null''"
| "getType (JArray _) = ''array''"
| "getType JUndefined = ''undefined''"
| "getType (JBoolean _) = ''boolean''"
| "getType (JNumber _) = ''number''"
| "getType (JString _) = ''string''"
| "getType (JObject _) = ''object''"

text \<open>
  \<open>analyzeValue\<close> with its counters passed through. The two \<open>forEach\<close> loops over
  \<open>Object.keys\<close> are \<open>analyzeEntries\<close> (keys of an object) and \<open>analyzeElements\<close>
  (keys of a first item that is itself an array: its indices \<open>0\<close>, \<open>1\<close>, ... as
  strings, since \<open>typeof\<close> of an array is \<open>object\<close>); \<open>childPath\<close> is the
  template that gives a child's path from its key.
\<close>

function (sequential) analyzeValue ::
      "int \<Rightarrow> json \<Rightarrow> string \<Rightarrow> string \<Rightarrow> nat \<Rightarrow> schema_counters \<Rightarrow> FieldNode option \<times> schema_counters"
  and analyzeEntries ::
      "int \<Rightarrow> (string \<Rightarrow> string) \<Rightarrow> nat \<Rightarrow> (string \<times> json) list \<Rightarrow> schema_counters \<Rightarrow> FieldNode list \<times> schema_counters"
  and analyzeElements ::
      "int \<Rightarrow> (string \<Rightarrow> string) \<Rightarrow> nat \<Rightarrow> nat \<Rightarrow> json list \<Rightarrow> schema_counters \<Rightarrow> FieldNode list \<times> schema_counters"
where
  "analyzeValue maxDepth v name path d st =
     (if int d > maxDepth then (None, st)
      else
        let st1 = \<lparr>cnt_totalFields = cnt_totalFields st + 1,
                   cnt_maxDepthReached = max (cnt_maxDepthReached st) d\<rparr>;
            node = FieldNode name path (getType v) None None None
        in case v of
             JArray [] \<Rightarrow> (Some (FieldNode name path (getType v) None (Some True) None), st1)
           | JArray (JObject kvs # _) \<Rightarrow>
               (let (cs, st2) = analyzeEntries maxDepth (\<lambda>key. path @ ''[*].'' @ key) (d + 1) kvs st1
                in (Some (FieldNode name path (getType v) (Some cs) (Some True) (Some ''object'')), st2))
           | JArray (JArray its # _) \<Rightarrow>
               (let (cs, st2) = analyzeElements maxDepth (\<lambda>key. path @ ''[*].'' @ key) (d + 1) 0 its st1
                in (Some (FieldNode name path (getType v) (Some cs) (Some True) (Some ''array'')), st2))
           | JArray (firstItem # _) \<Rightarrow>
               (Some (FieldNode name path (getType v) None (Some True) (Some (getType firstItem))), st1)
           | JObject kvs \<Rightarrow>
               (let (cs, st2) = analyzeEntries maxDepth
                                  (\<lambda>key. if path \<noteq> '''' then path @ ''.'' @ key else key) (d + 1) kvs st1
                in (Some (FieldNode name path (getType v) (Some cs) None None), st2))
           | _ \<Rightarrow> (Some node, st1))"
| "analyzeEntries maxDepth childPath d [] st = ([], st)"
| "analyzeEntries maxDepth childPath d ((key, v) # kvs) st =
     (let (childNode, st1) = analyzeValue maxDepth v key (childPath key) d st;
          (rest, st2) = analyzeEntries maxDepth childPath d kvs st1
      in (case childNode of None \<Rightarrow> rest | Some n \<Rightarrow> n # rest, st2))"
| "analyzeElements maxDepth childPath d i [] st = ([], st)"
| "analyzeElements maxDepth childPath d i (v # vs) st =
     (let key = string_of_nat i;
          (childNode, st1) = analyzeValue maxDepth v key (childPath key) d st;
          (rest, st2) = analyzeElements maxDepth childPath d (Suc i) vs st1
      in (case childNode of None \<Rightarrow> rest | Some n \<Rightarrow> n # rest, st2))"

  by pat_completeness auto

termination
  by (relation "measure (\<lambda>x. case x of
      Inl (_, v, _) \<Rightarrow> size v
    | Inr (Inl (_, _, _, kvs, _)) \<Rightarrow> size_list (size_prod (\<lambda>_. 0) size) kvs
    | Inr (Inr (_, _, _, _, vs, _)) \<Rightarrow> size_list size vs)") auto

declare analyzeValue.simps [simp del]

definition analyzeSchema :: "json \<Rightarrow> int \<Rightarrow> SchemaAnalysis" where
  "analyzeSchema data maxDepth =
     (let st0 = \<lparr>cnt_totalFields = 0, cnt_maxDepthReached = 0\<rparr>;
          (flds, st) =
            (case data of
               JArray _ \<Rightarrow>
                 (let (rootNode, st1) = analyzeValue maxDepth data ''root'' ''$'' 0 st0
                  in (case rootNode of
                        None \<Rightarrow> []
                      | Some n \<Rightarrow> (case children n of None \<Rightarrow> [] | Some cs \<Rightarrow> cs), st1))
             | JObject kvs \<Rightarrow> analyzeEntries maxDepth (\<lambda>key. ''$.'' @ key) 0 kvs st0
             | _ \<Rightarrow> ([], st0))
      in \<lparr>sa_fields = flds, sa_depth = cnt_maxDepthReached st, sa_totalFields = cnt_totalFields st\<rparr>)"

text \<open>
  Where a node of the result sits: a node is within the bound when its own depth is
  at most \<open>maxDepth\<close> and its children are within the bound one level deeper.
  \<open>count_nodes\<close> is the number of nodes of a tree.
\<close>

fun within_depth :: "int \<Rightarrow> nat \<Rightarrow> FieldNode \<Rightarrow> bool" where
  "within_depth maxDepth d (FieldNode n p t cs a it) =
     (int d \<le> maxDepth \<and>
      (case cs of None \<Rightarrow> True | Some ns \<Rightarrow> list_all (within_depth maxDepth (Suc d)) ns))"

fun count_nodes :: "FieldNode \<Rightarrow> nat" where
  "count_nodes (FieldNode n p t cs a it) =
     Suc (case cs of None \<Rightarrow> 0 | Some ns \<Rightarrow> sum_list (map count_nodes ns))"


text \<open>
  What one call of \<open>analyzeValue\<close>, or one loop over keys, does to the counters and
  what it returns: the greatest depth reached stays within a bound it was within,
  every node returned is within the bound, and the field counter grows by the number
  of nodes returned.
\<close>

definition depth_kept :: "int \<Rightarrow> schema_counters \<Rightarrow> schema_counters \<Rightarrow> bool" where
  "depth_kept maxDepth st st' =
     (int (cnt_maxDepthReached st) \<le> maxDepth \<longrightarrow> int (cnt_maxDepthReached st') \<le> maxDepth)"

definition value_ok :: "int \<Rightarrow> nat \<Rightarrow> schema_counters \<Rightarrow> FieldNode option \<times> schema_counters \<Rightarrow> bool" where
  "value_ok maxDepth d st res =
     (depth_kept maxDepth st (snd res) \<and>
      (case fst res of
         None \<Rightarrow> snd res = st
       | Some node \<Rightarrow>
           within_depth maxDepth d node \<and>
           cnt_totalFields (snd res) = cnt_totalFields st + count_nodes node))"

definition nodes_ok :: "int \<Rightarrow> nat \<Rightarrow> schema_counters \<Rightarrow> FieldNode list \<times> schema_counters \<Rightarrow> bool" where
  "nodes_ok maxDepth d st res =
     (depth_kept maxDepth st (snd res) \<and>
      list_all (within_depth maxDepth d) (fst res) \<and>
      cnt_totalFields (snd res) = cnt_totalFields st + sum_list (map count_nodes (fst res)))"


section \<open>CSV export: \<open>flattenObject\<close>, \<open>escapeCsvValue\<close>, \<open>jsonToCsv\<close>\<close>

text \<open>
  The values that \<open>flattenObject\<close> stores in a flattened row are primitives: the
  \<open>typeof\<close> tests of the source let nothing else through, and \<open>JSON.stringify\<close>
  gives a string or \<open>undefined\<close>.
\<close>

datatype primitive = PUndefined | PNull | PBoolean bool | PNumber rat | PString string

fun json_of_primitive :: "primitive \<Rightarrow> json" where
  "json_of_primitive PUndefined = JUndefined"
| "json_of_primitive PNull = JNull"
| "json_of_primitive (PBoolean b) = JBoolean b"
| "json_of_primitive (PNumber x) = JNumber x"
| "json_of_primitive (PString s) = JString s"

text \<open>
  \<open>JSON.stringify\<close> gives \<open>undefined\<close> on \<open>undefined\<close> and a string on every other
  value of the model; the text of that string is given by the parameter
  \<open>stringify\<close>.
\<close>

definition JSON_stringify :: "(json \<Rightarrow> string) \<Rightarrow> json \<Rightarrow> primitive" where
  "JSON_stringify stringify v = (case v of JUndefined \<Rightarrow> PUndefined | _ \<Rightarrow> PString (stringify v))"

text \<open>
  A flattened row is an ordinary JavaScript object used as a dictionary: its own
  properties in the order of their creation, and its prototype, which is
  \<open>Object.prototype\<close> for \<open>{}\<close> and for an object literal, and \<open>null\<close> once
  the setter of \<open>__proto__\<close> has been given \<open>null\<close>.
\<close>

datatype proto_slot = ProtoObjectPrototype | ProtoNull

record js_object =
  own_properties :: "(string \<times> primitive) list"
  proto :: proto_slot

text \<open>\<open>{}\<close> and \<open>{ [key]: v }\<close>; a computed key is always an own property.\<close>

definition empty_object :: js_object where
  "empty_object = \<lparr>own_properties = [], proto = ProtoObjectPrototype\<rparr>"

definition object_literal :: "string \<Rightarrow> primitive \<Rightarrow> js_object" where
  "object_literal key v = \<lparr>own_properties = [(key, v)], proto = ProtoObjectPrototype\<rparr>"

text \<open>
  \<open>flattened[key] = v\<close>, for a primitive \<open>v\<close>. An own property is overwritten. For
  a key that is not an own property the prototype is asked: \<open>Object.prototype\<close> has
  the accessor \<open>__proto__\<close>, whose setter runs instead of the assignment; it makes
  the prototype \<open>null\<close> when \<open>v\<close> is \<open>null\<close>, does nothing for another primitive,
  and creates no own property. Every other key becomes a new own property (the
  other members of \<open>Object.prototype\<close> are writable data properties).
\<close>

fun update_own :: "string \<Rightarrow> primitive \<Rightarrow> (string \<times> primitive) list \<Rightarrow> (string \<times> primitive) list" where
  "update_own k v [] = [(k, v)]"
| "update_own k v ((k', v') # kvs) =
     (if k' = k then (k, v) # kvs else (k', v') # update_own k v kvs)"

definition set_property :: "string \<Rightarrow> primitive \<Rightarrow> js_object \<Rightarrow> js_object" where
  "set_property key v obj =
     (if key \<in> set (map fst (own_properties obj))
      then \<lparr>own_properties = update_own key v (own_properties obj), proto = proto obj\<rparr>
      else if key = ''__proto__'' \<and> proto obj = ProtoObjectPrototype
      then (if v = PNull then \<lparr>own_properties = own_properties obj, proto = ProtoNull\<rparr> else obj)
      else \<lparr>own_properties = update_own key v (own_properties obj), proto = proto obj\<rparr>)"

text \<open>
  \<open>Object.keys\<close>: the own keys that are array indices (canonical decimal numerals
  below \<open>2\<^sup>3\<^sup>2 - 1\<close>) in ascending numeric order, then the other keys in the order
  of their creation.
\<close>

definition digits_value :: "string \<Rightarrow> int" where
  "digits_value k = fold (\<lambda>c n. 10 * n + (of_char c - 48)) k 0"

definition is_array_index :: "string \<Rightarrow> bool" where
  "is_array_index k =
     (k \<noteq> [] \<and> list_all is_digit k \<and> (k = ''0'' \<or> hd k \<noteq> CHR ''0'') \<and> digits_value k < 2 ^ 32 - 1)"

definition Object_keys :: "js_object \<Rightarrow> string list" where
  "Object_keys obj =
     (let ks = map fst (own_properties obj)
      in sort_key digits_value (filter is_array_index ks) @ filter (\<lambda>k. \<not> is_array_index k) ks)"

text \<open>The value of an own property.\<close>

definition own_value :: "js_object \<Rightarrow> string \<Rightarrow> primitive" where
  "own_value obj key = (case map_of (own_properties obj) key of None \<Rightarrow> PUndefined | Some v \<Rightarrow> v)"

text \<open>
  \<open>Object.assign(target, source)\<close> assigns every own property of \<open>source\<close> to
  \<open>target\<close>, in the order of \<open>Object.keys\<close>, by \<open>target[key] = source[key]\<close>.
\<close>

definition Object_assign :: "js_object \<Rightarrow> js_object \<Rightarrow> js_object" where
  "Object_assign target source =
     fold (\<lambda>key acc. set_property key (own_value source key) acc) (Object_keys source) target"

text \<open>
  What \<open>row[key]\<close> can give: a primitive, a built-in function (by its name) or the
  object \<open>Object.prototype\<close>.
\<close>

datatype js_value = Primitive primitive | BuiltinFunction string | ObjectPrototype

text \<open>
  The members of \<open>Object.prototype\<close> that hold a function named as their key; the
  member \<open>constructor\<close> holds the function \<open>Object\<close>, and \<open>__proto__\<close> is an
  accessor whose getter gives the prototype of the object it is read from.
\<close>

definition Object_prototype_methods :: "string list" where
  "Object_prototype_methods =
     [''__defineGetter__'', ''__defineSetter__'', ''__lookupGetter__'', ''__lookupSetter__'',
      ''hasOwnProperty'', ''isPrototypeOf'', ''propertyIsEnumerable'', ''toLocaleString'',
      ''toString'', ''valueOf'']"

text \<open>
  \<open>row[key]\<close>: the own property if there is one, and otherwise what the prototype
  has under that key, \<open>undefined\<close> when the prototype is \<open>null\<close> or has no such
  member.
\<close>

definition get_property :: "js_object \<Rightarrow> string \<Rightarrow> js_value" where
  "get_property row key =
     (case map_of (own_properties row) key of
        Some v \<Rightarrow> Primitive v
      | None \<Rightarrow>
          (case proto row of
             ProtoNull \<Rightarrow> Primitive PUndefined
           | ProtoObjectPrototype \<Rightarrow>
               if key = ''constructor'' then BuiltinFunction ''Object''
               else if key \<in> set Object_prototype_methods then BuiltinFunction key
               else if key = ''__proto__'' then ObjectPrototype
               else Primitive PUndefined))"

text \<open>
  \<open>flattenObject\<close>; the loop over \<open>Object.entries(obj)\<close> is \<open>flattenEntries\<close>, with
  the object \<open>flattened\<close> passed through. The branches for \<open>null\<close>, \<open>undefined\<close>
  and \<open>typeof obj !== 'object'\<close> are the five cases of a primitive.
\<close>

function (sequential) flattenObject ::
      "(json \<Rightarrow> string) \<Rightarrow> json \<Rightarrow> string \<Rightarrow> int \<Rightarrow> nat \<Rightarrow> js_object"
  and flattenEntries ::
      "(json \<Rightarrow> string) \<Rightarrow> (string \<times> json) list \<Rightarrow> string \<Rightarrow> int \<Rightarrow> nat \<Rightarrow> js_object \<Rightarrow> js_object"
where
  "flattenObject stringify obj prefix maxDepth currentDepth =
     (if int currentDepth \<ge> maxDepth
      then object_literal (if prefix \<noteq> '''' then prefix else ''value'') (JSON_stringify stringify obj)
      else case obj of
          JNull \<Rightarrow> object_literal (if prefix \<noteq> '''' then prefix else ''value'') PNull
        | JUndefined \<Rightarrow> object_literal (if prefix \<noteq> '''' then prefix else ''value'') PUndefined
        | JBoolean b \<Rightarrow> object_literal (if prefix \<noteq> '''' then prefix else ''value'') (PBoolean b)
        | JNumber x \<Rightarrow> object_literal (if prefix \<noteq> '''' then prefix else ''value'') (PNumber x)
        | JString s \<Rightarrow> object_literal (if prefix \<noteq> '''' then prefix else ''value'') (PString s)
        | JArray _ \<Rightarrow>
            object_literal (if prefix \<noteq> '''' then prefix else ''value'') (JSON_stringify stringify obj)
        | JObject kvs \<Rightarrow> flattenEntries stringify kvs prefix maxDepth currentDepth empty_object)"
| "flattenEntries stringify [] prefix maxDepth currentDepth flattened = flattened"
| "flattenEntries stringify ((key, v) # kvs) prefix maxDepth currentDepth flattened =
     (let newKey = (if prefix \<noteq> '''' then prefix @ ''.'' @ key else key);
          flattened' =
            (case v of
               JNull \<Rightarrow> set_property newKey PNull flattened
             | JUndefined \<Rightarrow> set_property newKey PUndefined flattened
             | JObject _ \<Rightarrow>
                 Object_assign flattened (flattenObject stringify v newKey maxDepth (currentDepth + 1))
             | JArray _ \<Rightarrow> set_property newKey (JSON_stringify stringify v) flattened
             | JBoolean b \<Rightarrow> set_property newKey (PBoolean b) flattened
             | JNumber x \<Rightarrow> set_property newKey (PNumber x) flattened
             | JString s \<Rightarrow> set_property newKey (PString s) flattened)
      in flattenEntries stringify kvs prefix maxDepth currentDepth flattened')"
  by pat_completeness auto

termination
  by (relation "measure (\<lambda>x. case x of
      Inl (_, obj, _) \<Rightarrow> size obj
    | Inr (_, kvs, _) \<Rightarrow> size_list (size_prod (\<lambda>_. 0) size) kvs)") auto

declare flattenObject.simps [simp del]

text \<open>
  \<open>String(value)\<close> on a JSON value: the text of a number is given by the parameter
  \<open>numToString\<close>; an array joins the texts of its elements with commas, \<open>null\<close> and
  \<open>undefined\<close> elements giving the empty text.
\<close>

fun js_String :: "(rat \<Rightarrow> string) \<Rightarrow> json \<Rightarrow> string" where
  "js_String numToString JNull = ''null''"
| "js_String numToString JUndefined = ''undefined''"
| "js_String numToString (JBoolean b) = (if b then ''true'' else ''false'')"
| "js_String numToString (JNumber x) = numToString x"
| "js_String numToString (JString s) = s"
| "js_String numToString (JArray vs) =
     join '','' (map (\<lambda>v. if v = JNull \<or> v = JUndefined then '''' else js_String numToString v) vs)"
| "js_String numToString (JObject kvs) = ''[object Object]''"

text \<open>
  \<open>String(value)\<close> on what a row can give. The text of a built-in function is
  left to the implementation by the language, within the form of a native
  function; it is given by the parameter \<open>nativeText\<close>, from the name of the
  function. \<open>Object.prototype\<close> has the text of every plain object.
\<close>

fun js_String_value :: "(rat \<Rightarrow> string) \<Rightarrow> (string \<Rightarrow> string) \<Rightarrow> js_value \<Rightarrow> string" where
  "js_String_value numToString nativeText (Primitive p) = js_String numToString (json_of_primitive p)"
| "js_String_value numToString nativeText (BuiltinFunction name) = nativeText name"
| "js_String_value numToString nativeText ObjectPrototype = ''[object Object]''"

text \<open>\<open>strValue.replace(/"/g, '""')\<close>.\<close>

definition double_quotes :: "string \<Rightarrow> string" where
  "double_quotes s = concat (map (\<lambda>c. if c = CHR 0x22 then [CHR 0x22, CHR 0x22] else [c]) s)"

definition escapeCsvValue :: "(rat \<Rightarrow> string) \<Rightarrow> (string \<Rightarrow> string) \<Rightarrow> js_value \<Rightarrow> string" where
  "escapeCsvValue numToString nativeText v =
     (if v = Primitive PNull \<or> v = Primitive PUndefined then ''''
      else let strValue = js_String_value numToString nativeText v;
               needsQuotes = (CHR '','' \<in> set strValue \<or> CHR 0x0A \<in> set strValue \<or>
                              CHR 0x0D \<in> set strValue \<or> CHR 0x22 \<in> set strValue)
           in if needsQuotes then [CHR 0x22] @ double_quotes strValue @ [CHR 0x22] else strValue)"

text \<open>\<open>CsvExportOptions\<close>, the two fields that \<open>jsonToCsv\<close> reads.\<close>

record CsvExportOptions =
  opt_maxDepth :: "int option"
  opt_includeRowNumbers :: "bool option"

text \<open>
  \<open>jsonToCsv\<close>, local by local. \<open>csv_flattenedRows\<close> is \<open>flattenedRows\<close>;
  \<open>csv_allKeys\<close> is the \<open>Set\<close> \<open>allKeys\<close> in its insertion order; \<open>csv_sortedKeys\<close>
  is \<open>Array.from(allKeys).sort()\<close>, the default sort comparing strings by their code
  units, which is the lexicographic order of \<^typ>\<open>string\<close>.
\<close>

definition csv_flattenedRows :: "(json \<Rightarrow> string) \<Rightarrow> json list \<Rightarrow> int \<Rightarrow> js_object list" where
  "csv_flattenedRows stringify data maxDepth =
     map (\<lambda>item. flattenObject stringify item '''' maxDepth 0) data"

definition set_add :: "'a \<Rightarrow> 'a list \<Rightarrow> 'a list" where
  "set_add k ks = (if k \<in> set ks then ks else ks @ [k])"

definition csv_allKeys :: "js_object list \<Rightarrow> string list" where
  "csv_allKeys flattenedRows =
     fold (\<lambda>flattened allKeys. fold set_add (Object_keys flattened) allKeys) flattenedRows []"

definition csv_sortedKeys :: "js_object list \<Rightarrow> string list" where
  "csv_sortedKeys flattenedRows = sort (csv_allKeys flattenedRows)"

definition csv_row ::
  "(rat \<Rightarrow> string) \<Rightarrow> (string \<Rightarrow> string) \<Rightarrow> bool \<Rightarrow> string list \<Rightarrow> js_object \<Rightarrow> nat \<Rightarrow> string" where
  "csv_row numToString nativeText includeRowNumbers sortedKeys row index =
     join '',''
       ((if includeRowNumbers then [string_of_nat (index + 1)] else [])
        @ map (\<lambda>key. escapeCsvValue numToString nativeText (get_property row key)) sortedKeys)"

text \<open>The defaults of the destructured options: \<open>maxDepth = 5\<close>, \<open>includeRowNumbers = true\<close>.\<close>

definition csv_maxDepth :: "CsvExportOptions \<Rightarrow> int" where
  "csv_maxDepth options = (case opt_maxDepth options of None \<Rightarrow> 5 | Some d \<Rightarrow> d)"

definition csv_includeRowNumbers :: "CsvExportOptions \<Rightarrow> bool" where
  "csv_includeRowNumbers options = (case opt_includeRowNumbers options of None \<Rightarrow> True | Some b \<Rightarrow> b)"

definition jsonToCsv ::
  "(json \<Rightarrow> string) \<Rightarrow> (rat \<Rightarrow> string) \<Rightarrow> (string \<Rightarrow> string) \<Rightarrow> json list \<Rightarrow> CsvExportOptions
     \<Rightarrow> string" where
  "jsonToCsv stringify numToString nativeText data options =
     (let maxDepth = csv_maxDepth options;
          includeRowNumbers = csv_includeRowNumbers options
      in if length data = 0 then (if includeRowNumbers then [CHR ''#'', CHR 0x0A] else '''')
         else
           let flattenedRows = csv_flattenedRows stringify data maxDepth;
               sortedKeys = csv_sortedKeys flattenedRows;
               headers = (if includeRowNumbers then [''#''] else []) @ sortedKeys;
               csvLines =
                 [join '','' (map (\<lambda>h. escapeCsvValue numToString nativeText (Primitive (PString h)))
                                 headers)]
                 @ map_index (csv_row numToString nativeText includeRowNumbers sortedKeys) 0 flattenedRows
           in join [CHR 0x0A] csvLines)"

text \<open>A row that is not a plain object: a primitive, \<open>null\<close>, \<open>undefined\<close> or an array.\<close>

fun is_plain_object :: "json \<Rightarrow> bool" where
  "is_plain_object (JObject _) = True"
| "is_plain_object _ = False"

fun is_array :: "json \<Rightarrow> bool" where
  "is_array (JArray _) = True"
| "is_array _ = False"

text \<open>The own entries of a row, its primitives read as JSON values.\<close>

definition row_entries :: "js_object \<Rightarrow> (string \<times> json) list" where
  "row_entries row = map (\<lambda>(key, v). (key, json_of_primitive v)) (own_properties row)"

text \<open>The text that V8 (Node.js, Chrome) gives for a built-in function.\<close>

definition v8_native_text :: "string \<Rightarrow> string" where
  "v8_native_text name = ''function '' @ name @ ''() { [native code] }''"

text \<open>
  For concrete runs: the text of a number that is whole, and the text that
  \<open>JSON.stringify\<close> gives for a value (inside an array \<open>undefined\<close> becomes
  \<open>null\<close>, inside an object an entry with the value \<open>undefined\<close> is left out).
\<close>

definition show_whole :: "rat \<Rightarrow> string" where
  "show_whole x = string_of_int \<lfloor>x\<rfloor>"

definition json_quote_char :: "char \<Rightarrow> string" where
  "json_quote_char c =
     (if c = CHR 0x22 then [CHR 0x5C, CHR 0x22]
      else if c = CHR 0x5C then [CHR 0x5C, CHR 0x5C]
      else if c = CHR 0x08 then [CHR 0x5C, CHR ''b'']
      else if c = CHR 0x0C then [CHR 0x5C, CHR ''f'']
      else if c = CHR 0x0A then [CHR 0x5C, CHR ''n'']
      else if c = CHR 0x0D then [CHR 0x5C, CHR ''r'']
      else if c = CHR 0x09 then [CHR 0x5C, CHR ''t'']
      else if (of_char c :: nat) < 32
      then [CHR 0x5C] @ ''u00'' @ [''0123456789abcdef'' ! (of_char c div 16),
                                   ''0123456789abcdef'' ! (of_char c mod 16)]
      else [c])"

definition json_quote :: "string \<Rightarrow> string" where
  "json_quote s = [CHR 0x22] @ concat (map json_quote_char s) @ [CHR 0x22]"

function (sequential) json_text :: "(rat \<Rightarrow> string) \<Rightarrow> json \<Rightarrow> string"
  and json_elements :: "(rat \<Rightarrow> string) \<Rightarrow> json list \<Rightarrow> string list"
  and json_members :: "(rat \<Rightarrow> string) \<Rightarrow> (string \<times> json) list \<Rightarrow> string list"
where
  "json_text numToString JNull = ''null''"
| "json_text numToString JUndefined = ''null''"
| "json_text numToString (JBoolean b) = (if b then ''true'' else ''false'')"
| "json_text numToString (JNumber x) = numToString x"
| "json_text numToString (JString s) = json_quote s"
| "json_text numToString (JArray vs) = ''['' @ join '','' (json_elements numToString vs) @ '']''"
| "json_text numToString (JObject kvs) = ''{'' @ join '','' (json_members numToString kvs) @ ''}''"
| "json_elements numToString [] = []"
| "json_elements numToString (v # vs) = json_text numToString v # json_elements numToString vs"
| "json_members numToString [] = []"
| "json_members numToString ((k, v) # kvs) =
     (if v = JUndefined then json_members numToString kvs
      else (json_quote k @ '':'' @ json_text numToString v) # json_members numToString kvs)"
  by pat_completeness auto

termination
  by (relation "measure (\<lambda>x. case x of
      Inl (_, v) \<Rightarrow> size v
    | Inr (Inl (_, vs)) \<Rightarrow> size_list size vs
    | Inr (Inr (_, kvs)) \<Rightarrow> size_list (size_prod (\<lambda>_. 0) size) kvs)") auto


section \<open>Search: \<open>highlightText\<close>, \<open>recursiveSearch\<close>\<close>

text \<open>
  \<open>String.prototype.toLowerCase\<close> on the code units below 256: the letters \<open>A\<close> to
  \<open>Z\<close> and the capital letters of Latin-1 (\<open>0xC0\<close> to \<open>0xDE\<close> without \<open>0xD7\<close>) move
  up by 32. The functions below take the lowering function as a parameter.
\<close>

definition lower_char :: "char \<Rightarrow> char" where
  "lower_char c =
     (let n = (of_char c :: nat)
      in if (65 \<le> n \<and> n \<le> 90) \<or> (192 \<le> n \<and> n \<le> 222 \<and> n \<noteq> 215) then char_of (n + 32) else c)"

definition toLowerCase :: "string \<Rightarrow> string" where
  "toLowerCase s = map lower_char s"

text \<open>
  \<open>s.indexOf(p, from)\<close>: the least position, not before \<open>from\<close> clamped to the
  length of \<open>s\<close>, at which \<open>p\<close> occurs; \<open>None\<close> is the result \<open>-1\<close>.
\<close>

fun find_from :: "string \<Rightarrow> string \<Rightarrow> nat \<Rightarrow> nat option" where
  "find_from [] p k = (if p = [] then Some k else None)"
| "find_from (c # cs) p k = (if startsWith (c # cs) p then Some k else find_from cs p (Suc k))"

definition indexOf :: "string \<Rightarrow> string \<Rightarrow> nat \<Rightarrow> nat option" where
  "indexOf s p from = (let start = min from (length s) in find_from (drop start s) p start)"

text \<open>\<open>s.substring(a, b)\<close>: both ends are clamped to the length, and swapped if needed.\<close>

definition substring :: "string \<Rightarrow> nat \<Rightarrow> nat \<Rightarrow> string" where
  "substring s a b =
     (let a' = min a (length s); b' = min b (length s)
      in take (max a' b' - min a' b') (drop (min a' b') s))"

text \<open>A segment of \<open>highlightText\<close> (\<open>text\<close>, \<open>isMatch\<close>).\<close>

record segment =
  seg_text :: string
  isMatch :: bool

text \<open>
  The \<open>while (index !== -1)\<close> loop of \<open>highlightText\<close> on its variables \<open>index\<close>,
  \<open>lastIndex\<close> and \<open>segments\<close>; \<open>searchLen\<close> is \<open>searchTerm.length\<close>. The loop is
  a partial function: \<open>None\<close> is a loop that does not end.
\<close>

partial_function (option) highlight_loop ::
  "string \<Rightarrow> string \<Rightarrow> string \<Rightarrow> nat \<Rightarrow> nat option \<Rightarrow> nat \<Rightarrow> segment list \<Rightarrow> (nat \<times> segment list) option"
where
  "highlight_loop textNormalized searchNormalized txt searchLen index lastIndex segments =
     (case index of
        None \<Rightarrow> Some (lastIndex, segments)
      | Some i \<Rightarrow>
          (let segments1 =
                 (if i > lastIndex
                  then segments @ [\<lparr>seg_text = substring txt lastIndex i, isMatch = False\<rparr>]
                  else segments);
               segments2 = segments1 @ [\<lparr>seg_text = substring txt i (i + searchLen), isMatch = True\<rparr>];
               lastIndex' = i + searchLen
           in highlight_loop textNormalized searchNormalized txt searchLen
                (indexOf textNormalized searchNormalized lastIndex') lastIndex' segments2))"

declare highlight_loop.simps [code]

definition highlightText :: "(string \<Rightarrow> string) \<Rightarrow> string \<Rightarrow> string \<Rightarrow> bool \<Rightarrow> segment list option" where
  "highlightText lower txt searchTerm caseSensitive =
     (if searchTerm = '''' \<or> txt = '''' then Some [\<lparr>seg_text = txt, isMatch = False\<rparr>]
      else
        let searchNormalized = (if caseSensitive then searchTerm else lower searchTerm);
            textNormalized = (if caseSensitive then txt else lower txt)
        in case highlight_loop textNormalized searchNormalized txt (length searchTerm)
                  (indexOf textNormalized searchNormalized 0) 0 [] of
             None \<Rightarrow> None
           | Some (lastIndex, segments) \<Rightarrow>
               Some (if lastIndex < length txt
                     then segments @ [\<lparr>seg_text = drop lastIndex txt, isMatch = False\<rparr>]
                     else segments))"

text \<open>\<open>SearchMatch\<close> (\<open>path\<close>, \<open>value\<close>, \<open>matchedText\<close>).\<close>

record SearchMatch =
  match_path :: "string list"
  match_value :: json
  matchedText :: string

text \<open>
  The closure \<open>searchValue\<close> of \<open>recursiveSearch\<close>, with the array \<open>matches\<close> it
  pushes to passed through; \<open>searchElements\<close> is the \<open>forEach\<close> over an array with
  its index, \<open>searchEntries\<close> the \<open>forEach\<close> over \<open>Object.entries\<close>.
\<close>

function (sequential) searchValue ::
      "(string \<Rightarrow> string) \<Rightarrow> (rat \<Rightarrow> string) \<Rightarrow> bool \<Rightarrow> string \<Rightarrow> json \<Rightarrow> string list
         \<Rightarrow> SearchMatch list \<Rightarrow> SearchMatch list"
  and searchElements ::
      "(string \<Rightarrow> string) \<Rightarrow> (rat \<Rightarrow> string) \<Rightarrow> bool \<Rightarrow> string \<Rightarrow> json list \<Rightarrow> nat \<Rightarrow> string list
         \<Rightarrow> SearchMatch list \<Rightarrow> SearchMatch list"
  and searchEntries ::
      "(string \<Rightarrow> string) \<Rightarrow> (rat \<Rightarrow> string) \<Rightarrow> bool \<Rightarrow> string \<Rightarrow> (string \<times> json) list \<Rightarrow> string list
         \<Rightarrow> SearchMatch list \<Rightarrow> SearchMatch list"
where
  "searchValue lower numToString caseSensitive searchNormalized (JArray items) path matches =
     searchElements lower numToString caseSensitive searchNormalized items 0 path matches"
| "searchValue lower numToString caseSensitive searchNormalized (JObject kvs) path matches =
     searchEntries lower numToString caseSensitive searchNormalized kvs path matches"
| "searchValue lower numToString caseSensitive searchNormalized v path matches =
     (let stringValue = js_String numToString v;
          compareValue = (if caseSensitive then stringValue else lower stringValue)
      in if str_includes compareValue searchNormalized
         then matches @ [\<lparr>match_path = path, match_value = v, matchedText = stringValue\<rparr>]
         else matches)"
| "searchElements lower numToString caseSensitive searchNormalized [] index path matches = matches"
| "searchElements lower numToString caseSensitive searchNormalized (item # items) index path matches =
     searchElements lower numToString caseSensitive searchNormalized items (Suc index) path
       (searchValue lower numToString caseSensitive searchNormalized item
          (path @ [''['' @ string_of_nat index @ '']'']) matches)"
| "searchEntries lower numToString caseSensitive searchNormalized [] path matches = matches"
| "searchEntries lower numToString caseSensitive searchNormalized ((key, val) # kvs) path matches =
     (let keyCompare = (if caseSensitive then key else lower key);
          matches1 =
            (if str_includes keyCompare searchNormalized
             then matches @ [\<lparr>match_path = path @ [key], match_value = val, matchedText = key\<rparr>]
             else matches)
      in searchEntries lower numToString caseSensitive searchNormalized kvs path
           (searchValue lower numToString caseSensitive searchNormalized val (path @ [key]) matches1))"
  by pat_completeness auto

termination
  by (relation "measure (\<lambda>x. case x of
      Inl (_, _, _, _, v, _) \<Rightarrow> size v
    | Inr (Inl (_, _, _, _, vs, _)) \<Rightarrow> size_list size vs
    | Inr (Inr (_, _, _, _, kvs, _)) \<Rightarrow> size_list (size_prod (\<lambda>_. 0) size) kvs)") auto

definition recursiveSearch ::
  "(string \<Rightarrow> string) \<Rightarrow> (rat \<Rightarrow> string) \<Rightarrow> json \<Rightarrow> string \<Rightarrow> bool \<Rightarrow> string list \<Rightarrow> SearchMatch list" where
  "recursiveSearch lower numToString data searchTerm caseSensitive currentPath =
     (if searchTerm = '''' then []
      else let searchNormalized = (if caseSensitive then searchTerm else lower searchTerm)
           in searchValue lower numToString caseSensitive searchNormalized data currentPath [])"


section \<open>Properties of the validator\<close>

lemma running_depth_Cons:
  "running_depth (c # cs) = bracket_delta c + running_depth cs"
  by (simp add: running_depth_def)

lemma running_depth_Nil [simp]: "running_depth [] = 0"
  by (simp add: running_depth_def)

lemma all_prefixes_Cons:
  "(\<forall>n \<le> Suc (length cs). P (take n (c # cs))) \<longleftrightarrow>
   P [] \<and> (\<forall>n \<le> length cs. P (c # take n cs))"
proof
  assume L: "\<forall>n \<le> Suc (length cs). P (take n (c # cs))"
  have "P []" using L [rule_format, of 0] by simp
  moreover have "P (c # take n cs)" if "n \<le> length cs" for n
    using L [rule_format, of "Suc n"] that by simp
  ultimately show "P [] \<and> (\<forall>n \<le> length cs. P (c # take n cs))" by blast
next
  assume R: "P [] \<and> (\<forall>n \<le> length cs. P (c # take n cs))"
  show "\<forall>n \<le> Suc (length cs). P (take n (c # cs))"
  proof (intro allI impI)
    fix n assume "n \<le> Suc (length cs)"
    then show "P (take n (c # cs))" using R by (cases n) auto
  qed
qed

lemma scan_brackets_running_depth:
  "0 \<le> d \<Longrightarrow>
   scan_brackets (filter is_bracket cs) d \<longleftrightarrow>
     (\<forall>n \<le> length cs. 0 \<le> d + running_depth (take n cs)) \<and> d + running_depth cs = 0"
proof (induction cs arbitrary: d)
  case Nil
  then show ?case by (simp add: running_depth_def)
next
  case (Cons c cs)
  show ?case
  proof (cases "is_bracket c")
    case False
    then have z: "bracket_delta c = 0"
      by (auto simp: is_bracket_def bracket_delta_def)
    show ?thesis
      using Cons.IH [OF Cons.prems] Cons.prems False
      by (simp add: all_prefixes_Cons [where P = "\<lambda>xs. 0 \<le> d + running_depth xs"]
          running_depth_Cons z)
  next
    case True
    let ?d2 = "d + bracket_delta c"
    have step: "scan_brackets (filter is_bracket (c # cs)) d =
        (if ?d2 < 0 then False else scan_brackets (filter is_bracket cs) ?d2)"
      using True by (auto simp: is_bracket_def bracket_delta_def Let_def)
    show ?thesis
    proof (cases "?d2 < 0")
      case neg: True
      have "\<not> (\<forall>n \<le> length (c # cs). 0 \<le> d + running_depth (take n (c # cs)))"
      proof
        assume "\<forall>n \<le> length (c # cs). 0 \<le> d + running_depth (take n (c # cs))"
        from this [rule_format, of 1] have "0 \<le> d + running_depth [c]" by simp
        with neg show False by (simp add: running_depth_def)
      qed
      with step neg show ?thesis by simp
    next
      case nonneg: False
      then have d2: "0 \<le> ?d2" by simp
      have "scan_brackets (filter is_bracket (c # cs)) d =
          scan_brackets (filter is_bracket cs) ?d2"
        using step nonneg by simp
      also have "\<dots> = ((\<forall>n \<le> length cs. 0 \<le> ?d2 + running_depth (take n cs))
          \<and> ?d2 + running_depth cs = 0)"
        by (rule Cons.IH [OF d2])
      also have "\<dots> = ((\<forall>n \<le> length (c # cs). 0 \<le> d + running_depth (take n (c # cs)))
          \<and> d + running_depth (c # cs) = 0)"
        using Cons.prems
        by (simp add: all_prefixes_Cons [where P = "\<lambda>xs. 0 \<le> d + running_depth xs"]
            running_depth_Cons add.assoc)
      finally show ?thesis .
    qed
  qed
qed

lemma spec_balanced_iff:
  "spec_balanced text \<longleftrightarrow>
     (\<forall>n \<le> length text. 0 \<le> running_depth (take n text)) \<and> running_depth text = 0"
  by (auto simp: spec_balanced_def list_all_iff less_Suc_eq_le)

lemma isValidJsonPath_spec: "isValidJsonPath text = spec_isValidQuery text"
proof (cases "text")
  case Nil
  then show ?thesis by (simp add: isValidJsonPath_def spec_isValidQuery_def)
next
  case (Cons c cs)
  have "scan_brackets (filter is_bracket text) 0 = spec_balanced text"
    using scan_brackets_running_depth [of 0 "text"] by (simp add: spec_balanced_iff)
  then show ?thesis
    using Cons by (auto simp: isValidJsonPath_def spec_isValidQuery_def startsWith_def)
qed

lemma isValidJsonPath_examples:
  "\<not> isValidJsonPath ''''"
  "\<not> isValidJsonPath ''foo''"
  "\<not> isValidJsonPath ''$.a[0''"
  "isValidJsonPath ''$[0:10]''"
  "isValidJsonPath ''$[?(@.x==1)]''"
  by (simp_all add: isValidJsonPath_def startsWith_def is_bracket_def)

text \<open>
  Claim C4. \<open>isValidJsonPath\<close> returns false on the empty text and on a text that
  does not start with \<open>$\<close> or \<open>@\<close>; on every other text it returns true exactly
  when the depth counter over the text's brackets and parentheses never becomes
  negative and ends at zero. It rejects the empty text, \<open>foo\<close> and \<open>$.a[0\<close>, and
  accepts \<open>$[0:10]\<close> and \<open>$[?(@.x==1)]\<close>.
\<close>

theorem isValidJsonPath_balance:
  "(text = [] \<or> \<not> (startsWith text ''$'' \<or> startsWith text ''@'') \<longrightarrow> \<not> isValidJsonPath text) \<and>
   (text \<noteq> [] \<and> (startsWith text ''$'' \<or> startsWith text ''@'') \<longrightarrow>
      isValidJsonPath text = spec_balanced text) \<and>
   \<not> isValidJsonPath '''' \<and> \<not> isValidJsonPath ''foo'' \<and> \<not> isValidJsonPath ''$.a[0'' \<and>
   isValidJsonPath ''$[0:10]'' \<and> isValidJsonPath ''$[?(@.x==1)]''"
proof -
  have "text = [] \<or> \<not> (startsWith text ''$'' \<or> startsWith text ''@'') \<longrightarrow> \<not> isValidJsonPath text"
    by (auto simp: isValidJsonPath_def)
  moreover have "text \<noteq> [] \<and> (startsWith text ''$'' \<or> startsWith text ''@'') \<longrightarrow>
      isValidJsonPath text = spec_balanced text"
    by (cases "text") (auto simp: isValidJsonPath_spec spec_isValidQuery_def startsWith_def)
  ultimately show ?thesis
    using isValidJsonPath_examples by blast
qed

theorem isValidJsonPath_balance_witness:
  "''$[0:10]'' \<noteq> [] \<and> startsWith ''$[0:10]'' ''$'' \<and>
   isValidJsonPath ''$[0:10]'' = spec_balanced ''$[0:10]'' \<and> spec_balanced ''$[0:10]'' \<and>
   \<not> startsWith ''foo'' ''$'' \<and> \<not> startsWith ''foo'' ''@'' \<and> \<not> isValidJsonPath ''foo''"
  using isValidJsonPath_balance [of "''$[0:10]''"] isValidJsonPath_balance [of "''foo''"]
  by (simp add: startsWith_def)


section \<open>Properties of the filter-clause synthesis\<close>

lemma join_empty_sep: "join [] xs = concat xs"
  by (induction "[] :: string" xs rule: join.induct) simp_all

lemma filter_condition_first:
  "operator c \<in> set OperatorType \<Longrightarrow> filter_condition numberIsNaN c 0 = spec_fragment numberIsNaN c"
  by (auto simp: OperatorType_def filter_condition_def spec_fragment_def spec_comparison_value_def)

lemma filter_condition_later:
  assumes "operator c \<in> set OperatorType" and "logicalOperator c = Some l"
  shows "filter_condition numberIsNaN c (Suc i) = spec_separator l @ spec_fragment numberIsNaN c"
  using assms
  by (cases l)
    (auto simp: OperatorType_def filter_condition_def spec_fragment_def spec_comparison_value_def)

lemma map_index_later:
  assumes "\<forall>c \<in> set cs. logicalOperator c \<noteq> None"
    and "\<forall>c \<in> set cs. operator c \<in> set OperatorType"
  shows "map_index (filter_condition numberIsNaN) (Suc i) cs =
         map (\<lambda>c. spec_separator (the (logicalOperator c)) @ spec_fragment numberIsNaN c) cs"
  using assms
proof (induction cs arbitrary: i)
  case Nil
  then show ?case by simp
next
  case (Cons c cs)
  from Cons.prems obtain l where l: "logicalOperator c = Some l" by auto
  have "filter_condition numberIsNaN c (Suc i) = spec_separator l @ spec_fragment numberIsNaN c"
    using Cons.prems(2) l by (intro filter_condition_later) simp_all
  moreover have "map_index (filter_condition numberIsNaN) (Suc (Suc i)) cs =
      map (\<lambda>c. spec_separator (the (logicalOperator c)) @ spec_fragment numberIsNaN c) cs"
    using Cons.prems by (intro Cons.IH) simp_all
  ultimately show ?case using l by simp
qed

text \<open>
  Claim C1. For a non-empty list of conditions with operators of \<open>OperatorType\<close>, in
  which every condition after the first carries a logical operator, the synthesized
  clause is \<open>[?(\<close>, the fragments in order, \<open>)]\<close>. A comparison (\<open>==\<close>, \<open>!=\<close>, \<open><\<close>,
  \<open>>\<close>, \<open><=\<close>, \<open>>=\<close>) renders \<open>@.property op value\<close> with the value bare when
  \<open>Number(value)\<close> is not \<open>NaN\<close> and in single quotes otherwise; \<open>contains\<close> renders
  \<open>@.property =~ /value/i\<close> and \<open>regex\<close> renders \<open>@.property =~ /value/\<close>, both with
  the value's text as it is; \<open>exists\<close> renders \<open>@.property\<close>. Every condition but the
  first is prefixed with \<open> && \<close> or \<open> || \<close> from its logical operator, the first with
  nothing (whether or not it carries one). This holds for every behaviour of
  \<open>isNaN(Number(_))\<close>.
\<close>

theorem generateFilterExpression_spec:
  assumes "filters \<noteq> []"
    and "\<forall>c \<in> set (tl filters). logicalOperator c \<noteq> None"
    and "\<forall>c \<in> set filters. operator c \<in> set OperatorType"
  shows "generateFilterExpression numberIsNaN filters = spec_filter_clause numberIsNaN filters"
proof -
  from assms(1) obtain c cs where fs: "filters = c # cs" by (cases filters) auto
  have first: "filter_condition numberIsNaN c 0 = spec_fragment numberIsNaN c"
    using assms(3) fs by (intro filter_condition_first) simp
  have rest: "map_index (filter_condition numberIsNaN) (Suc 0) cs =
      map (\<lambda>c. spec_separator (the (logicalOperator c)) @ spec_fragment numberIsNaN c) cs"
    using assms(2,3) fs by (intro map_index_later) simp_all
  show ?thesis
    by (simp add: fs generateFilterExpression_def spec_filter_clause_def join_empty_sep first rest)
qed

theorem generateFilterExpression_spec_witness:
  "generateFilterExpression Number_isNaN
     [\<lparr>cond_id = ''1'', property = ''brand'', operator = ''=='', cond_value = ''Toyota'',
        logicalOperator = None\<rparr>,
      \<lparr>cond_id = ''2'', property = ''year'', operator = ''>'', cond_value = ''2015'',
        logicalOperator = Some AND\<rparr>]
   = ''[?(@.brand == '' @ [CHR 0x27] @ ''Toyota'' @ [CHR 0x27] @ '' && @.year > 2015)]''"
  using generateFilterExpression_spec [of
      "[\<lparr>cond_id = ''1'', property = ''brand'', operator = ''=='', cond_value = ''Toyota'',
          logicalOperator = None\<rparr>,
        \<lparr>cond_id = ''2'', property = ''year'', operator = ''>'', cond_value = ''2015'',
          logicalOperator = Some AND\<rparr>]" Number_isNaN]
  by (simp add: OperatorType_def spec_filter_clause_def spec_fragment_def spec_comparison_value_def
      Number_isNaN_def trim_def js_whitespace_def non_decimal_integer_literal_def
      unsigned_decimal_literal_def strip_sign_def is_digit_def exponent_part_opt_def)


section \<open>Properties of the slice notation\<close>

lemma generateArraySlice_cases:
  "generateArraySlice s =
     (if slice_step s \<noteq> None \<and> slice_step s \<noteq> Some 0
      then ''['' @ slice_bound (slice_start s) @ '':'' @ slice_bound (slice_end s) @ '':''
             @ slice_bound (slice_step s) @ '']''
      else if slice_start s \<noteq> None \<or> slice_end s \<noteq> None
      then ''['' @ slice_bound (slice_start s) @ '':'' @ slice_bound (slice_end s) @ '']''
      else ''[*]'')"
  by (auto simp: generateArraySlice_def slice_bound_def Let_def)

lemma buildJsonPathQuery_append:
  "buildJsonPathQuery numberIsNaN rootPath selectedPath filters (Some s) recursiveDescent =
     buildJsonPathQuery numberIsNaN rootPath selectedPath [] None recursiveDescent
     @ generateArraySlice s
     @ (if filters = [] then '''' else generateFilterExpression numberIsNaN filters)"
  by (simp add: buildJsonPathQuery_def Let_def)

text \<open>
  Claim C5, as stated, fails: a slice whose step is set to 0 (the step field of the
  query builder accepts it) does not render \<open>[start:end:step]\<close>. With no bounds the
  source renders \<open>[*]\<close> where the claim gives \<open>[::0]\<close>.
\<close>

theorem generateArraySlice_step_zero_counterexample:
  "generateArraySlice \<lparr>slice_start = None, slice_end = None, slice_step = Some 0\<rparr> = ''[*]'' \<and>
   spec_slice_notation \<lparr>slice_start = None, slice_end = None, slice_step = Some 0\<rparr> = ''[::0]'' \<and>
   buildJsonPathQuery Number_isNaN ''$'' [] []
     (Some \<lparr>slice_start = None, slice_end = None, slice_step = Some 0\<rparr>) False = ''$[*]''"
  by (simp add: generateArraySlice_def spec_slice_notation_def slice_bound_def string_of_int_def
      string_of_nat.simps buildJsonPathQuery_def endsWith_def)

text \<open>
  Claim C5, amended. For every present slice the synthesizer appends, after the path
  and before the filter clause, exactly \<open>[start:end:step]\<close> when the step is set and
  is not 0; when the step is absent or 0 it appends \<open>[start:end]\<close> if a start or an
  end is set, and \<open>[*]\<close> if neither is. An absent bound renders as the empty string.
\<close>

theorem buildJsonPathQuery_slice:
  "buildJsonPathQuery numberIsNaN rootPath selectedPath filters (Some s) recursiveDescent =
     buildJsonPathQuery numberIsNaN rootPath selectedPath [] None recursiveDescent
     @ (if slice_step s \<noteq> None \<and> slice_step s \<noteq> Some 0
        then ''['' @ slice_bound (slice_start s) @ '':'' @ slice_bound (slice_end s) @ '':''
               @ slice_bound (slice_step s) @ '']''
        else if slice_start s \<noteq> None \<or> slice_end s \<noteq> None
        then ''['' @ slice_bound (slice_start s) @ '':'' @ slice_bound (slice_end s) @ '']''
        else ''[*]'')
     @ (if filters = [] then '''' else generateFilterExpression numberIsNaN filters)"
  by (simp only: buildJsonPathQuery_append generateArraySlice_cases)

theorem buildJsonPathQuery_slice_witness:
  "buildJsonPathQuery Number_isNaN ''$'' [''cars''] []
     (Some \<lparr>slice_start = Some 2, slice_end = None, slice_step = Some 3\<rparr>) False = ''$.cars[2::3]'' \<and>
   buildJsonPathQuery Number_isNaN ''$'' [''cars''] []
     (Some \<lparr>slice_start = None, slice_end = Some 10, slice_step = None\<rparr>) False = ''$.cars[:10]'' \<and>
   buildJsonPathQuery Number_isNaN ''$'' [''cars''] []
     (Some \<lparr>slice_start = None, slice_end = None, slice_step = None\<rparr>) False = ''$.cars[*]''"
  using
    buildJsonPathQuery_slice [of Number_isNaN "''$''" "[''cars'']" "[]"
      "\<lparr>slice_start = Some 2, slice_end = None, slice_step = Some 3\<rparr>" False]
    buildJsonPathQuery_slice [of Number_isNaN "''$''" "[''cars'']" "[]"
      "\<lparr>slice_start = None, slice_end = Some 10, slice_step = None\<rparr>" False]
    buildJsonPathQuery_slice [of Number_isNaN "''$''" "[''cars'']" "[]"
      "\<lparr>slice_start = None, slice_end = None, slice_step = None\<rparr>" False]
  by (simp add: buildJsonPathQuery_def endsWith_def slice_bound_def string_of_int_def
      string_of_nat.simps)


section \<open>Properties of the metrics ring\<close>










section \<open>Properties of the histogram\<close>
























lemma upt_10: "[0 ..< 10] = [0, 1, 2, 3, 4, 5, 6, 7, 8, Suc 8]"
  by (simp add: upt_rec numeral_eq_Suc)






section \<open>Properties of the schema analysis\<close>

lemma depth_kept_refl: "depth_kept m st st"
  by (simp add: depth_kept_def)

lemma depth_kept_trans: "depth_kept m a b \<Longrightarrow> depth_kept m b c \<Longrightarrow> depth_kept m a c"
  by (simp add: depth_kept_def)

lemma depth_kept_visit:
  "\<not> maxDepth < int d \<Longrightarrow>
   depth_kept maxDepth st \<lparr>cnt_totalFields = cnt_totalFields st + 1,
      cnt_maxDepthReached = max (cnt_maxDepthReached st) d\<rparr>"
  by (auto simp: depth_kept_def max_def)

lemma nodes_ok_step:
  assumes v: "value_ok m d st (r, st1)" and n: "nodes_ok m d st1 (rest, st2)"
  shows "nodes_ok m d st (case r of None \<Rightarrow> rest | Some n \<Rightarrow> n # rest, st2)"
  using v n
  by (cases r) (auto simp: value_ok_def nodes_ok_def intro: depth_kept_trans)

lemma analyze_ok:
  "value_ok maxDepth d st (analyzeValue maxDepth v name path d st)"
  "nodes_ok maxDepth d' st' (analyzeEntries maxDepth childPath d' kvs st')"
  "nodes_ok maxDepth d'' st'' (analyzeElements maxDepth childPath' d'' i vs st'')"
proof (induction maxDepth v name path d st and maxDepth childPath d' kvs st'
    and maxDepth childPath' d'' i vs st''
    rule: analyzeValue_analyzeEntries_analyzeElements.induct)
  case (1 maxDepth v name path d st)
  show ?case
  proof (cases "maxDepth < int d")
    case True
    then show ?thesis by (simp add: analyzeValue.simps value_ok_def depth_kept_refl)
  next
    case False
    let ?st1 = "\<lparr>cnt_totalFields = cnt_totalFields st + 1,
                   cnt_maxDepthReached = max (cnt_maxDepthReached st) d\<rparr>"
    note dk = depth_kept_visit [OF False, of st]
    have dle: "int d \<le> maxDepth" using False by simp
    show ?thesis
    proof (cases v)
      case (JArray items)
      show ?thesis
      proof (cases items)
        case Nil
        then show ?thesis using False JArray dk dle by (simp add: analyzeValue.simps value_ok_def)
      next
        case (Cons firstItem rest)
        show ?thesis
        proof (cases firstItem)
          case (JObject kvs)
          have ih: "nodes_ok maxDepth (d + 1) ?st1
              (analyzeEntries maxDepth (\<lambda>key. path @ ''[*].'' @ key) (d + 1) kvs ?st1)"
            using "1.IH"(2) [OF False refl refl JArray Cons JObject] .
          then show ?thesis
            using False JArray Cons JObject dk dle
            by (auto simp: analyzeValue.simps value_ok_def nodes_ok_def split: prod.splits intro: depth_kept_trans)
        next
          case (JArray its)
          have ih: "nodes_ok maxDepth (d + 1) ?st1
              (analyzeElements maxDepth (\<lambda>key. path @ ''[*].'' @ key) (d + 1) 0 its ?st1)"
            using "1.IH"(1) [OF False refl refl \<open>v = JArray items\<close> Cons JArray] .
          then show ?thesis
            using False \<open>v = JArray items\<close> Cons JArray dk dle
            by (auto simp: analyzeValue.simps value_ok_def nodes_ok_def split: prod.splits intro: depth_kept_trans)
        qed (use False JArray Cons dk dle in \<open>simp_all add: analyzeValue.simps value_ok_def\<close>)
      qed
    next
      case (JObject kvs)
      have ih: "nodes_ok maxDepth (d + 1) ?st1
          (analyzeEntries maxDepth (\<lambda>key. if path \<noteq> '''' then path @ ''.'' @ key else key) (d + 1) kvs ?st1)"
        using "1.IH"(3) [OF False refl refl JObject] .
      then show ?thesis
        using False JObject dk dle
        by (auto simp: analyzeValue.simps value_ok_def nodes_ok_def split: prod.splits intro: depth_kept_trans)
    qed (use False dk dle in \<open>simp_all add: analyzeValue.simps value_ok_def\<close>)
  qed
next
  case (2 maxDepth childPath d st)
  show ?case by (simp add: nodes_ok_def depth_kept_refl)
next
  case (3 maxDepth childPath d key v kvs st)
  obtain r st1 where a: "analyzeValue maxDepth v key (childPath key) d st = (r, st1)"
    by (cases "analyzeValue maxDepth v key (childPath key) d st") auto
  obtain rest st2 where b: "analyzeEntries maxDepth childPath d kvs st1 = (rest, st2)"
    by (cases "analyzeEntries maxDepth childPath d kvs st1") auto
  have v: "value_ok maxDepth d st (r, st1)" using "3.IH"(1) a by simp
  have n: "nodes_ok maxDepth d st1 (rest, st2)" using "3.IH"(2) [OF refl a [symmetric]] b by simp
  show ?case using nodes_ok_step [OF v n] by (simp add: a b)
next
  case (4 maxDepth childPath d i st)
  show ?case by (simp add: nodes_ok_def depth_kept_refl)
next
  case (5 maxDepth childPath d i v vs st)
  obtain r st1 where a: "analyzeValue maxDepth v (string_of_nat i) (childPath (string_of_nat i)) d st = (r, st1)"
    by (cases "analyzeValue maxDepth v (string_of_nat i) (childPath (string_of_nat i)) d st") auto
  obtain rest st2 where b: "analyzeElements maxDepth childPath d (Suc i) vs st1 = (rest, st2)"
    by (cases "analyzeElements maxDepth childPath d (Suc i) vs st1") auto
  have v: "value_ok maxDepth d st (r, st1)" using "5.IH"(1) [OF refl] a by simp
  have n: "nodes_ok maxDepth d st1 (rest, st2)" using "5.IH"(2) [OF refl refl a [symmetric]] b by simp
  show ?case using nodes_ok_step [OF v n] by (simp add: a b Let_def)
qed

lemma analyzeValue_Some:
  assumes "\<not> maxDepth < int d"
  shows "\<exists>n. fst (analyzeValue maxDepth v name path d st) = Some n"
  using assms
  by (simp add: analyzeValue.simps Let_def split: json.splits list.splits prod.splits)

text \<open>
  Claim C3. For every JSON value and every \<open>maxDepth \<ge> 0\<close> the \<open>depth\<close> of the
  result is at most \<open>maxDepth\<close>. Every node of the result sits at a depth of at most
  \<open>maxDepth\<close>, the top-level fields being at depth 0 for a root object and at depth 1
  for a root array (whose virtual root node is at depth 0): deeper branches have no
  node at all. \<open>totalFields\<close> is the number of nodes of the result, plus one for the
  virtual root of a root array, so that an omitted branch is not counted.
\<close>

theorem analyzeSchema_depth_bound:
  assumes "0 \<le> maxDepth"
  shows "int (sa_depth (analyzeSchema v maxDepth)) \<le> maxDepth \<and>
    list_all (within_depth maxDepth (case v of JArray _ \<Rightarrow> 1 | _ \<Rightarrow> 0))
      (sa_fields (analyzeSchema v maxDepth)) \<and>
    sa_totalFields (analyzeSchema v maxDepth) =
      sum_list (map count_nodes (sa_fields (analyzeSchema v maxDepth)))
      + (case v of JArray _ \<Rightarrow> 1 | _ \<Rightarrow> 0)"
proof -
  let ?st0 = "\<lparr>cnt_totalFields = 0, cnt_maxDepthReached = 0\<rparr>"
  have d0: "int (cnt_maxDepthReached ?st0) \<le> maxDepth" using assms by simp
  show ?thesis
  proof (cases v)
    case (JArray items)
    obtain r st1 where a: "analyzeValue maxDepth v ''root'' ''$'' 0 ?st0 = (r, st1)"
      by (cases "analyzeValue maxDepth v ''root'' ''$'' 0 ?st0") auto
    have "\<not> maxDepth < int 0" using assms by simp
    from analyzeValue_Some [OF this, of v "''root''" "''$''" ?st0] a
    obtain n where r: "r = Some n" by auto
    have ok: "value_ok maxDepth 0 ?st0 (r, st1)"
      using analyze_ok(1) [of maxDepth 0 ?st0 v "''root''" "''$''"] a by simp
    obtain nm p t cs ia it where n: "n = FieldNode nm p t cs ia it" by (cases n) auto
    have res: "analyzeSchema v maxDepth =
        \<lparr>sa_fields = (case cs of None \<Rightarrow> [] | Some ns \<Rightarrow> ns),
         sa_depth = cnt_maxDepthReached st1, sa_totalFields = cnt_totalFields st1\<rparr>"
      using JArray a r n by (simp add: analyzeSchema_def Let_def)
    have rd: "(case v of JArray _ \<Rightarrow> 1 | _ \<Rightarrow> 0) = (1 :: nat)"
      using JArray by simp
    show ?thesis
      using ok d0
      by (cases cs) (auto simp: res rd value_ok_def depth_kept_def r n)
  next
    case (JObject kvs)
    obtain cs st1 where a: "analyzeEntries maxDepth (\<lambda>key. ''$.'' @ key) 0 kvs ?st0 = (cs, st1)"
      by (cases "analyzeEntries maxDepth (\<lambda>key. ''$.'' @ key) 0 kvs ?st0") auto
    have ok: "nodes_ok maxDepth 0 ?st0 (cs, st1)"
      using analyze_ok(2) [of maxDepth 0 ?st0 "\<lambda>key. ''$.'' @ key" kvs] a by simp
    have res: "analyzeSchema v maxDepth =
        \<lparr>sa_fields = cs, sa_depth = cnt_maxDepthReached st1, sa_totalFields = cnt_totalFields st1\<rparr>"
      unfolding analyzeSchema_def Let_def JObject
      by (simp only: json.case a prod.case)
    have rd: "(case v of JArray _ \<Rightarrow> 1 | _ \<Rightarrow> 0) = (0 :: nat)"
      using JObject by simp
    show ?thesis
      using ok d0 by (auto simp: res rd nodes_ok_def depth_kept_def)
  qed (use assms in \<open>simp_all add: analyzeSchema_def\<close>)
qed

theorem analyzeSchema_depth_bound_witness:
  "(0 :: int) \<le> 1 \<and>
   analyzeSchema
     (JObject [(''a'', JObject [(''b'', JObject [(''c'', JNumber 1)])]),
               (''xs'', JArray [JObject [(''k'', JString ''v'')]])]) 1
   = \<lparr>sa_fields =
        [FieldNode ''a'' ''$.a'' ''object''
           (Some [FieldNode ''b'' ''$.a.b'' ''object'' (Some []) None None]) None None,
         FieldNode ''xs'' ''$.xs'' ''array''
           (Some [FieldNode ''k'' ''$.xs[*].k'' ''string'' None None None])
           (Some True) (Some ''object'')],
      sa_depth = 1, sa_totalFields = 4\<rparr> \<and>
   int (sa_depth (analyzeSchema
     (JObject [(''a'', JObject [(''b'', JObject [(''c'', JNumber 1)])]),
               (''xs'', JArray [JObject [(''k'', JString ''v'')]])]) 1)) \<le> 1"
proof -
  have h: "(0 :: int) \<le> 1" by simp
  have run: "analyzeSchema
     (JObject [(''a'', JObject [(''b'', JObject [(''c'', JNumber 1)])]),
               (''xs'', JArray [JObject [(''k'', JString ''v'')]])]) 1
   = \<lparr>sa_fields =
        [FieldNode ''a'' ''$.a'' ''object''
           (Some [FieldNode ''b'' ''$.a.b'' ''object'' (Some []) None None]) None None,
         FieldNode ''xs'' ''$.xs'' ''array''
           (Some [FieldNode ''k'' ''$.xs[*].k'' ''string'' None None None])
           (Some True) (Some ''object'')],
      sa_depth = 1, sa_totalFields = 4\<rparr>"
    by code_simp
  from h run analyzeSchema_depth_bound [OF h, THEN conjunct1] show ?thesis
    by (intro conjI)
qed


section \<open>Properties of the CSV export\<close>

lemma set_fold_set_add: "set (fold set_add ks acc) = set acc \<union> set ks"
  by (induction ks arbitrary: acc) (auto simp: set_add_def)

lemma distinct_fold_set_add: "distinct acc \<Longrightarrow> distinct (fold set_add ks acc)"
  by (induction ks arbitrary: acc) (auto simp: set_add_def)

lemma set_Object_keys: "set (Object_keys row) = fst ` set (own_properties row)"
  by (auto simp: Object_keys_def Let_def)

lemma set_fold_rows:
  "set (fold (\<lambda>flattened allKeys. fold set_add (Object_keys flattened) allKeys) rows acc)
     = set acc \<union> (\<Union>row \<in> set rows. fst ` set (own_properties row))"
  by (induction rows arbitrary: acc) (auto simp: set_fold_set_add set_Object_keys)

lemma distinct_fold_rows:
  "distinct acc \<Longrightarrow>
   distinct (fold (\<lambda>flattened allKeys. fold set_add (Object_keys flattened) allKeys) rows acc)"
  by (induction rows arbitrary: acc) (auto simp: distinct_fold_set_add)

text \<open>
  The columns are the own keys of all flattened rows, each once, in the
  lexicographic order of strings.
\<close>

lemma csv_sortedKeys_props:
  "set (csv_sortedKeys rows) = (\<Union>row \<in> set rows. fst ` set (own_properties row))"
  "sorted (csv_sortedKeys rows)"
  "distinct (csv_sortedKeys rows)"
  by (simp_all add: csv_sortedKeys_def csv_allKeys_def set_fold_rows distinct_fold_rows)

text \<open>
  The cell of a key that a row does not have is empty when \<open>Object.prototype\<close> has
  no member of that name, or is not the prototype of the row; it is a built-in
  function when the row inherits one under that key.
\<close>

lemma get_property_own:
  "map_of (own_properties row) key = Some v \<Longrightarrow> get_property row key = Primitive v"
  by (simp add: get_property_def)

lemma get_property_missing:
  assumes "key \<notin> fst ` set (own_properties row)"
    and "proto row = ProtoNull \<or>
         key \<noteq> ''constructor'' \<and> key \<notin> set Object_prototype_methods \<and> key \<noteq> ''__proto__''"
  shows "get_property row key = Primitive PUndefined"
proof -
  have "map_of (own_properties row) key = None"
    using assms(1) by (simp add: map_of_eq_None_iff)
  then show ?thesis
    using assms(2) by (auto simp: get_property_def split: proto_slot.splits)
qed

lemma escapeCsvValue_missing:
  assumes "key \<notin> fst ` set (own_properties row)"
    and "proto row = ProtoNull \<or>
         key \<noteq> ''constructor'' \<and> key \<notin> set Object_prototype_methods \<and> key \<noteq> ''__proto__''"
  shows "escapeCsvValue numToString nativeText (get_property row key) = ''''"
  by (simp add: get_property_missing [OF assms] escapeCsvValue_def)

lemma get_property_inherited_constructor:
  assumes "''constructor'' \<notin> fst ` set (own_properties row)" and "proto row = ProtoObjectPrototype"
  shows "get_property row ''constructor'' = BuiltinFunction ''Object''"
proof -
  have "map_of (own_properties row) ''constructor'' = None"
    using assms(1) by (simp add: map_of_eq_None_iff)
  then show ?thesis
    using assms(2) by (simp add: get_property_def)
qed

lemma get_property_inherited_method:
  assumes "key \<notin> fst ` set (own_properties row)" and "proto row = ProtoObjectPrototype"
    and "key \<in> set Object_prototype_methods"
  shows "get_property row key = BuiltinFunction key"
proof -
  have "map_of (own_properties row) key = None"
    using assms(1) by (simp add: map_of_eq_None_iff)
  then show ?thesis
    using assms(2,3) by (auto simp: get_property_def Object_prototype_methods_def)
qed

lemma escapeCsvValue_inherited_constructor:
  assumes "''constructor'' \<notin> fst ` set (own_properties row)" and "proto row = ProtoObjectPrototype"
    and "nativeText ''Object'' \<noteq> ''''"
  shows "escapeCsvValue numToString nativeText (get_property row ''constructor'') \<noteq> ''''"
  using assms(3)
  by (simp add: get_property_inherited_constructor [OF assms(1,2)] escapeCsvValue_def Let_def)

lemma jsonToCsv_nonempty:
  assumes "data \<noteq> []"
  shows "jsonToCsv stringify numToString nativeText data options =
     join [CHR 0x0A]
       (join '','' (map (\<lambda>h. escapeCsvValue numToString nativeText (Primitive (PString h)))
            ((if csv_includeRowNumbers options then [''#''] else [])
             @ csv_sortedKeys (csv_flattenedRows stringify data (csv_maxDepth options))))
        # map_index
            (\<lambda>row index. join '',''
               ((if csv_includeRowNumbers options then [string_of_nat (index + 1)] else [])
                @ map (\<lambda>key. escapeCsvValue numToString nativeText (get_property row key))
                    (csv_sortedKeys (csv_flattenedRows stringify data (csv_maxDepth options)))))
            0 (csv_flattenedRows stringify data (csv_maxDepth options)))"
proof -
  have row: "csv_row numToString nativeText inc keys = (\<lambda>row index. join '',''
               ((if inc then [string_of_nat (index + 1)] else [])
                @ map (\<lambda>key. escapeCsvValue numToString nativeText (get_property row key)) keys))"
    for inc keys
    by (intro ext) (simp add: csv_row_def)
  show ?thesis
    using assms by (simp add: jsonToCsv_def Let_def row)
qed

text \<open>
  Claim C7 asks for an empty cell wherever a row lacks the key of a column, and the
  source means to give one (\<open>escapeCsvValue\<close> turns \<open>undefined\<close> into the empty
  text). But it reads the cell by \<open>row[key]\<close>, which also finds what the row
  inherits from \<open>Object.prototype\<close>. For the two rows \<open>{a: 1}\<close> and
  \<open>{constructor: 'x'}\<close>, exported without row numbers, the columns are \<open>a\<close> and
  \<open>constructor\<close>; the first row has the single own key \<open>a\<close>, and yet its cell in
  the column \<open>constructor\<close> is the text of the built-in function \<open>Object\<close>, not
  the empty text.
\<close>

theorem jsonToCsv_inherited_member_cell:
  "Object_keys (flattenObject (json_text show_whole) (JObject [(''a'', JNumber 1)]) '''' 5 0) = [''a''] \<and>
   csv_sortedKeys (csv_flattenedRows (json_text show_whole)
      [JObject [(''a'', JNumber 1)], JObject [(''constructor'', JString ''x'')]] 5)
     = [''a'', ''constructor''] \<and>
   get_property (flattenObject (json_text show_whole) (JObject [(''a'', JNumber 1)]) '''' 5 0)
      ''constructor'' = BuiltinFunction ''Object'' \<and>
   jsonToCsv (json_text show_whole) show_whole v8_native_text
      [JObject [(''a'', JNumber 1)], JObject [(''constructor'', JString ''x'')]]
      \<lparr>opt_maxDepth = None, opt_includeRowNumbers = Some False\<rparr>
     = ''a,constructor'' @ [CHR 0x0A] @ ''1,function Object() { [native code] }'' @ [CHR 0x0A] @ '',x''"
proof -
  have keys0: "Object_keys (flattenObject (json_text show_whole) (JObject [(''a'', JNumber 1)]) '''' 5 0)
      = [''a'']"
    by code_simp
  have cols: "csv_sortedKeys (csv_flattenedRows (json_text show_whole)
      [JObject [(''a'', JNumber 1)], JObject [(''constructor'', JString ''x'')]] 5)
     = [''a'', ''constructor'']"
    by code_simp
  have cell: "get_property (flattenObject (json_text show_whole) (JObject [(''a'', JNumber 1)]) '''' 5 0)
      ''constructor'' = BuiltinFunction ''Object''"
    by code_simp
  have csv: "jsonToCsv (json_text show_whole) show_whole v8_native_text
      [JObject [(''a'', JNumber 1)], JObject [(''constructor'', JString ''x'')]]
      \<lparr>opt_maxDepth = None, opt_includeRowNumbers = Some False\<rparr>
     = ''a,constructor'' @ [CHR 0x0A] @ ''1,function Object() { [native code] }'' @ [CHR 0x0A] @ '',x''"
    by code_simp
  from keys0 cols cell csv show ?thesis by (intro conjI)
qed

lemma flattenObject_top_non_object:
  assumes "\<not> is_plain_object v"
  shows "flattenObject stringify v '''' maxDepth 0 =
     object_literal ''value''
       (if maxDepth \<le> 0 then JSON_stringify stringify v
        else (case v of JNull \<Rightarrow> PNull | JUndefined \<Rightarrow> PUndefined | JBoolean b \<Rightarrow> PBoolean b
              | JNumber x \<Rightarrow> PNumber x | JString s \<Rightarrow> PString s
              | _ \<Rightarrow> JSON_stringify stringify v))"
  using assms by (cases v) (simp_all add: flattenObject.simps)

lemma row_entries_top_non_object:
  assumes "\<not> is_plain_object v"
  shows "row_entries (flattenObject stringify v '''' maxDepth 0) =
     [(''value'',
       if maxDepth \<le> 0 then json_of_primitive (JSON_stringify stringify v)
       else (case v of JArray _ \<Rightarrow> json_of_primitive (JSON_stringify stringify v) | _ \<Rightarrow> v))]"
  using assms
  by (cases v) (simp_all add: flattenObject_top_non_object row_entries_def object_literal_def)

lemma Object_keys_value: "Object_keys (object_literal ''value'' cell) = [''value'']"
  by (simp add: Object_keys_def object_literal_def is_array_index_def is_digit_def)

lemma csv_allKeys_all_value:
  assumes "rows \<noteq> []" and "\<forall>row \<in> set rows. Object_keys row = [''value'']"
  shows "csv_allKeys rows = [''value'']"
proof -
  have "fold (\<lambda>flattened allKeys. fold set_add (Object_keys flattened) allKeys) rows acc = [''value'']"
    if "acc = [] \<and> rows \<noteq> [] \<or> acc = [''value'']" "\<forall>row \<in> set rows. Object_keys row = [''value'']"
    for acc
    using that
  proof (induction rows arbitrary: acc)
    case Nil
    then show ?case by simp
  next
    case (Cons row rows)
    have "fold set_add (Object_keys row) acc = [''value'']"
      using Cons.prems by (auto simp: set_add_def)
    then show ?case using Cons by simp
  qed
  then show ?thesis using assms by (simp add: csv_allKeys_def)
qed

text \<open>
  Claim C10. A top-level row that is not a plain object (a primitive, \<open>null\<close>,
  \<open>undefined\<close> or an array) flattens to an ordinary object with exactly one own
  entry, with the key \<open>value\<close>. It holds the row as it is, except that an array is
  given as its \<open>JSON.stringify\<close> text, and so is any row when the depth bound is
  already exceeded at the top level (\<open>maxDepth \<le> 0\<close>). A non-empty list of such
  rows, a list of bare numbers for one, exports with \<open>value\<close> as its single data
  column.
\<close>

theorem flattenObject_value_column:
  "(\<not> is_plain_object v \<longrightarrow>
      row_entries (flattenObject stringify v '''' maxDepth 0) =
        [(''value'',
          if maxDepth \<le> 0 then json_of_primitive (JSON_stringify stringify v)
          else (case v of JArray _ \<Rightarrow> json_of_primitive (JSON_stringify stringify v) | _ \<Rightarrow> v))] \<and>
      proto (flattenObject stringify v '''' maxDepth 0) = ProtoObjectPrototype) \<and>
   (data \<noteq> [] \<and> (\<forall>item \<in> set data. \<not> is_plain_object item) \<longrightarrow>
      csv_sortedKeys (csv_flattenedRows stringify data (csv_maxDepth options)) = [''value''] \<and>
      jsonToCsv stringify numToString nativeText data options =
        join [CHR 0x0A]
          (join '','' ((if csv_includeRowNumbers options then [''#''] else []) @ [''value''])
           # map_index
               (\<lambda>row index. join '',''
                  ((if csv_includeRowNumbers options then [string_of_nat (index + 1)] else [])
                   @ [escapeCsvValue numToString nativeText (get_property row ''value'')]))
               0 (csv_flattenedRows stringify data (csv_maxDepth options))))"
proof (intro conjI impI)
  assume np: "\<not> is_plain_object v"
  then show "row_entries (flattenObject stringify v '''' maxDepth 0) =
        [(''value'',
          if maxDepth \<le> 0 then json_of_primitive (JSON_stringify stringify v)
          else (case v of JArray _ \<Rightarrow> json_of_primitive (JSON_stringify stringify v) | _ \<Rightarrow> v))]"
    by (rule row_entries_top_non_object)
  show "proto (flattenObject stringify v '''' maxDepth 0) = ProtoObjectPrototype"
    by (simp add: flattenObject_top_non_object [OF np] object_literal_def)
next
  assume a: "data \<noteq> [] \<and> (\<forall>item \<in> set data. \<not> is_plain_object item)"
  let ?rows = "csv_flattenedRows stringify data (csv_maxDepth options)"
  have "?rows \<noteq> []" using a by (simp add: csv_flattenedRows_def)
  moreover have "\<forall>row \<in> set ?rows. Object_keys row = [''value'']"
    using a by (auto simp: csv_flattenedRows_def flattenObject_top_non_object Object_keys_value)
  ultimately have "csv_allKeys ?rows = [''value'']" by (rule csv_allKeys_all_value)
  then show keys: "csv_sortedKeys ?rows = [''value'']" by (simp add: csv_sortedKeys_def)
  have hdr: "escapeCsvValue numToString nativeText (Primitive (PString ''value'')) = ''value''"
    by (simp add: escapeCsvValue_def)
  have hash: "escapeCsvValue numToString nativeText (Primitive (PString ''#'')) = ''#''"
    by (simp add: escapeCsvValue_def)
  show "jsonToCsv stringify numToString nativeText data options =
        join [CHR 0x0A]
          (join '','' ((if csv_includeRowNumbers options then [''#''] else []) @ [''value''])
           # map_index
               (\<lambda>row index. join '',''
                  ((if csv_includeRowNumbers options then [string_of_nat (index + 1)] else [])
                   @ [escapeCsvValue numToString nativeText (get_property row ''value'')]))
               0 ?rows)"
    using a by (simp add: jsonToCsv_nonempty keys hdr hash)
qed

theorem flattenObject_value_column_witness:
  "\<not> is_plain_object (JArray [JNumber 1, JNumber 2]) \<and>
   row_entries (flattenObject (json_text show_whole) (JArray [JNumber 1, JNumber 2]) '''' 5 0)
     = [(''value'', JString ''[1,2]'')] \<and>
   flattenObject (json_text show_whole) (JNumber 7) '''' 5 0 = object_literal ''value'' (PNumber 7) \<and>
   jsonToCsv (json_text show_whole) show_whole v8_native_text [JNumber 1, JNumber 22]
      \<lparr>opt_maxDepth = None, opt_includeRowNumbers = Some False\<rparr>
     = ''value'' @ [CHR 0x0A] @ ''1'' @ [CHR 0x0A] @ ''22''"
proof -
  have np: "\<not> is_plain_object (JArray [JNumber 1, JNumber 2])" by simp
  have f1: "row_entries (flattenObject (json_text show_whole) (JArray [JNumber 1, JNumber 2]) '''' 5 0)
     = [(''value'', JString ''[1,2]'')]"
    using flattenObject_value_column [of "JArray [JNumber 1, JNumber 2]" "json_text show_whole" 5,
        THEN conjunct1]
    by (simp add: JSON_stringify_def show_whole_def string_of_int_def string_of_nat.simps)
  have f2: "flattenObject (json_text show_whole) (JNumber 7) '''' 5 0
      = object_literal ''value'' (PNumber 7)"
    by code_simp
  have csv: "jsonToCsv (json_text show_whole) show_whole v8_native_text [JNumber 1, JNumber 22]
      \<lparr>opt_maxDepth = None, opt_includeRowNumbers = Some False\<rparr>
     = ''value'' @ [CHR 0x0A] @ ''1'' @ [CHR 0x0A] @ ''22''"
    by code_simp
  from np f1 f2 csv show ?thesis by (intro conjI)
qed

section \<open>Properties of the highlighter\<close>

lemma startsWith_length:
  assumes "startsWith s p"
  shows "length p \<le> length s"
proof -
  have "length (take (length p) s) = length p"
    using assms by (simp only: startsWith_def)
  then show ?thesis by simp
qed

lemma find_from_bounds:
  "find_from s p k = Some j \<Longrightarrow> k \<le> j \<and> (j - k) + length p \<le> length s"
proof (induction s arbitrary: k)
  case Nil
  then show ?case by (simp split: if_splits)
next
  case (Cons c cs)
  show ?case
  proof (cases "startsWith (c # cs) p")
    case True
    then have "j = k" using Cons.prems by simp
    then show ?thesis using startsWith_length [OF True] by simp
  next
    case False
    then have "find_from cs p (Suc k) = Some j" using Cons.prems by simp
    from Cons.IH [OF this] have "Suc k \<le> j \<and> (j - Suc k) + length p \<le> length cs" .
    then show ?thesis by auto
  qed
qed

lemma indexOf_bounds:
  assumes "indexOf s p from = Some j"
  shows "min from (length s) \<le> j \<and> j + length p \<le> length s"
proof -
  have "find_from (drop (min from (length s)) s) p (min from (length s)) = Some j"
    using assms by (simp add: indexOf_def Let_def)
  from find_from_bounds [OF this] show ?thesis by auto
qed

lemma take_substring:
  assumes "a \<le> b"
  shows "take a s @ substring s a b = take b s"
proof -
  let ?n = "length s"
  have le: "min a ?n \<le> min b ?n" using assms by simp
  have "substring s a b = take (min b ?n - min a ?n) (drop (min a ?n) s)"
    using le by (simp add: substring_def Let_def min_absorb1 max_absorb2)
  moreover have "take a s = take (min a ?n) s" by (simp add: min_def)
  moreover have "take (min a ?n) s @ take (min b ?n - min a ?n) (drop (min a ?n) s)
      = take (min a ?n + (min b ?n - min a ?n)) s"
    by (simp only: take_add)
  moreover have "min a ?n + (min b ?n - min a ?n) = min b ?n" using le by simp
  moreover have "take (min b ?n) s = take b s" by (simp add: min_def)
  ultimately show ?thesis by simp
qed

text \<open>
  The loop ends, and keeps the segments equal to the part of the text before
  \<open>lastIndex\<close>, whenever the normalized search string is not empty: every match
  found lies at or after \<open>lastIndex\<close>, and the next search starts behind it.
\<close>

lemma highlight_loop_total:
  assumes sn: "sn \<noteq> []" and L: "0 < L"
  shows "concat (map seg_text segments) = take lastIndex txt \<Longrightarrow>
     (\<And>i. index = Some i \<Longrightarrow> lastIndex \<le> i \<and> i + length sn \<le> length tn) \<Longrightarrow>
     \<exists>li segs. highlight_loop tn sn txt L index lastIndex segments = Some (li, segs)
        \<and> concat (map seg_text segs) = take li txt"
proof (induction "case index of None \<Rightarrow> 0 | Some i \<Rightarrow> Suc (length tn - i)"
    arbitrary: index lastIndex segments rule: less_induct)
  case less
  show ?case
  proof (cases index)
    case None
    then show ?thesis using less.prems(1) by (simp add: highlight_loop.simps)
  next
    case (Some i)
    from less.prems(2) [OF Some] have li: "lastIndex \<le> i" and ib: "i + length sn \<le> length tn"
      by simp_all
    let ?segs1 = "if i > lastIndex
        then segments @ [\<lparr>seg_text = substring txt lastIndex i, isMatch = False\<rparr>] else segments"
    let ?segs2 = "?segs1 @ [\<lparr>seg_text = substring txt i (i + L), isMatch = True\<rparr>]"
    let ?index' = "indexOf tn sn (i + L)"
    have c1: "concat (map seg_text ?segs1) = take i txt"
    proof (cases "i > lastIndex")
      case True
      then show ?thesis
        using less.prems(1) take_substring [OF li, of "txt"] by simp
    next
      case False
      then have "i = lastIndex" using li by simp
      then show ?thesis using less.prems(1) by simp
    qed
    have c2: "concat (map seg_text ?segs2) = take (i + L) txt"
      using c1 take_substring [of i "i + L" "txt"] by simp
    have nxt: "i + L \<le> j \<and> j + length sn \<le> length tn" if "?index' = Some j" for j
    proof -
      from indexOf_bounds [OF that]
      have m: "min (i + L) (length tn) \<le> j" and jb: "j + length sn \<le> length tn" by simp_all
      have "j < length tn" using jb sn by (cases sn) simp_all
      with m have "i + L \<le> j" by (simp add: min_def split: if_splits)
      with jb show ?thesis by simp
    qed
    have dec: "(case ?index' of None \<Rightarrow> 0 | Some j \<Rightarrow> Suc (length tn - j))
        < (case index of None \<Rightarrow> 0 | Some i \<Rightarrow> Suc (length tn - i))"
    proof (cases ?index')
      case None
      then show ?thesis using Some by simp
    next
      case (Some j)
      from nxt [OF Some] L ib sn have "i < j" "i < length tn" by (cases sn; simp)+
      then show ?thesis using Some \<open>index = Some i\<close> by simp
    qed
    have "\<exists>li segs. highlight_loop tn sn txt L ?index' (i + L) ?segs2 = Some (li, segs)
        \<and> concat (map seg_text segs) = take li txt"
      using less.hyps [OF dec c2] nxt by blast
    moreover have "highlight_loop tn sn txt L index lastIndex segments
        = highlight_loop tn sn txt L ?index' (i + L) ?segs2"
      by (subst highlight_loop.simps) (simp add: Some Let_def)
    ultimately show ?thesis by simp
  qed
qed

lemma highlightText_any_lower:
  assumes "searchTerm \<noteq> [] \<Longrightarrow> lower searchTerm \<noteq> []"
  shows "\<exists>segs. highlightText lower txt searchTerm caseSensitive = Some segs
     \<and> concat (map seg_text segs) = txt"
proof (cases "searchTerm = [] \<or> txt = []")
  case True
  then show ?thesis by (auto simp: highlightText_def)
next
  case False
  let ?sn = "if caseSensitive then searchTerm else lower searchTerm"
  let ?tn = "if caseSensitive then txt else lower txt"
  have sn: "?sn \<noteq> []" using False assms by simp
  have L: "0 < length searchTerm" using False by simp
  have start: "\<And>i. indexOf ?tn ?sn 0 = Some i \<Longrightarrow> 0 \<le> i \<and> i + length ?sn \<le> length ?tn"
    using indexOf_bounds by blast
  from highlight_loop_total [OF sn L, of "[]" 0 "txt" "indexOf ?tn ?sn 0" ?tn] start
  obtain li segs where run: "highlight_loop ?tn ?sn txt (length searchTerm) (indexOf ?tn ?sn 0) 0 []
      = Some (li, segs)" and inv: "concat (map seg_text segs) = take li txt"
    by auto
  have res: "highlightText lower txt searchTerm caseSensitive =
      Some (if li < length txt then segs @ [\<lparr>seg_text = drop li txt, isMatch = False\<rparr>] else segs)"
    using False run by (simp add: highlightText_def Let_def)
  show ?thesis
    unfolding res using inv by (cases "li < length txt") simp_all
qed

lemma toLowerCase_Nil: "toLowerCase s = [] \<longleftrightarrow> s = []"
  by (simp add: toLowerCase_def)

text \<open>
  Claim C9. For every text and every search term, case-sensitive or not,
  \<open>highlightText\<close> returns (its loop ends), and the texts of the segments it returns,
  put together in order, are the text it was given.
\<close>

theorem highlightText_concat:
  "\<exists>segs. highlightText toLowerCase txt searchTerm caseSensitive = Some segs
     \<and> concat (map seg_text segs) = txt"
  by (rule highlightText_any_lower) (simp add: toLowerCase_Nil)

theorem highlightText_concat_witness:
  "highlightText toLowerCase ''Hello World'' ''world'' False =
     Some [\<lparr>seg_text = ''Hello '', isMatch = False\<rparr>, \<lparr>seg_text = ''World'', isMatch = True\<rparr>] \<and>
   (\<exists>segs. highlightText toLowerCase ''Hello World'' ''world'' False = Some segs
      \<and> concat (map seg_text segs) = ''Hello World'')"
proof -
  have run: "highlightText toLowerCase ''Hello World'' ''world'' False =
     Some [\<lparr>seg_text = ''Hello '', isMatch = False\<rparr>, \<lparr>seg_text = ''World'', isMatch = True\<rparr>]"
    by code_simp
  from run highlightText_concat [of "''Hello World''" "''world''" False]
  show ?thesis by (intro conjI)
qed


section \<open>The variables that the closures of \<open>analyzeSchema\<close> and \<open>recursiveSearch\<close> update\<close>

text \<open>
  The nodes that \<open>analyzeValue\<close> and its loops return do not depend on the values
  the counters had before the call.
\<close>

lemma analyze_nodes_independent:
  "\<forall>st'. fst (analyzeValue maxDepth v name path d st) = fst (analyzeValue maxDepth v name path d st')"
  "\<forall>st'. fst (analyzeEntries maxDepth childPath d' kvs sta) = fst (analyzeEntries maxDepth childPath d' kvs st')"
  "\<forall>st'. fst (analyzeElements maxDepth childPath' d'' i vs stb) = fst (analyzeElements maxDepth childPath' d'' i vs st')"
proof (induction maxDepth v name path d st and maxDepth childPath d' kvs sta
    and maxDepth childPath' d'' i vs stb
    rule: analyzeValue_analyzeEntries_analyzeElements.induct)
  case (1 maxDepth v name path d st)
  show ?case
  proof (intro allI)
    fix st'
    show "fst (analyzeValue maxDepth v name path d st) = fst (analyzeValue maxDepth v name path d st')"
    proof (cases "maxDepth < int d")
      case True
      then show ?thesis by (simp add: analyzeValue.simps)
    next
      case False
      let ?st1 = "\<lparr>cnt_totalFields = cnt_totalFields st + 1,
                     cnt_maxDepthReached = max (cnt_maxDepthReached st) d\<rparr>"
      let ?st1' = "\<lparr>cnt_totalFields = cnt_totalFields st' + 1,
                     cnt_maxDepthReached = max (cnt_maxDepthReached st') d\<rparr>"
      show ?thesis
      proof (cases v)
        case (JArray items)
        show ?thesis
        proof (cases items)
          case Nil
          then show ?thesis using False JArray by (simp add: analyzeValue.simps)
        next
          case (Cons firstItem rest)
          show ?thesis
          proof (cases firstItem)
            case (JObject kvs)
            have "fst (analyzeEntries maxDepth (\<lambda>key. path @ ''[*].'' @ key) (d + 1) kvs ?st1)
                = fst (analyzeEntries maxDepth (\<lambda>key. path @ ''[*].'' @ key) (d + 1) kvs ?st1')"
              using "1.IH"(2) [OF False refl refl JArray Cons JObject] by blast
            then show ?thesis
              using False JArray Cons JObject
              by (simp add: analyzeValue.simps case_prod_beta Let_def)
          next
            case inner: (JArray its)
            have "fst (analyzeElements maxDepth (\<lambda>key. path @ ''[*].'' @ key) (d + 1) 0 its ?st1)
                = fst (analyzeElements maxDepth (\<lambda>key. path @ ''[*].'' @ key) (d + 1) 0 its ?st1')"
              using "1.IH"(1) [OF False refl refl JArray Cons inner] by blast
            then show ?thesis
              using False JArray Cons inner
              by (simp add: analyzeValue.simps case_prod_beta Let_def)
          qed (use False JArray Cons in \<open>simp_all add: analyzeValue.simps\<close>)
        qed
      next
        case (JObject kvs)
        have "fst (analyzeEntries maxDepth (\<lambda>key. if path \<noteq> '''' then path @ ''.'' @ key else key) (d + 1) kvs ?st1)
            = fst (analyzeEntries maxDepth (\<lambda>key. if path \<noteq> '''' then path @ ''.'' @ key else key) (d + 1) kvs ?st1')"
          using "1.IH"(3) [OF False refl refl JObject] by blast
        then show ?thesis
          using False JObject
          by (simp add: analyzeValue.simps case_prod_beta Let_def)
      qed (use False in \<open>simp_all add: analyzeValue.simps\<close>)
    qed
  qed
next
  case (2 maxDepth childPath d st)
  show ?case by simp
next
  case (3 maxDepth childPath d key v kvs st)
  show ?case
  proof (intro allI)
    fix st'
    have a: "fst (analyzeValue maxDepth v key (childPath key) d st)
        = fst (analyzeValue maxDepth v key (childPath key) d st')"
      using "3.IH"(1) by blast
    have b: "fst (analyzeEntries maxDepth childPath d kvs
                (snd (analyzeValue maxDepth v key (childPath key) d st)))
        = fst (analyzeEntries maxDepth childPath d kvs
                (snd (analyzeValue maxDepth v key (childPath key) d st')))"
      using "3.IH"(2) [OF refl prod.collapse] by blast
    show "fst (analyzeEntries maxDepth childPath d ((key, v) # kvs) st)
        = fst (analyzeEntries maxDepth childPath d ((key, v) # kvs) st')"
      unfolding analyzeEntries.simps Let_def case_prod_beta fst_conv a b by (rule refl)
  qed
next
  case (4 maxDepth childPath d i st)
  show ?case by simp
next
  case (5 maxDepth childPath d i v vs st)
  show ?case
  proof (intro allI)
    fix st'
    let ?key = "string_of_nat i"
    have a: "fst (analyzeValue maxDepth v ?key (childPath ?key) d st)
        = fst (analyzeValue maxDepth v ?key (childPath ?key) d st')"
      using "5.IH"(1) [OF refl] by blast
    have b: "fst (analyzeElements maxDepth childPath d (Suc i) vs
                (snd (analyzeValue maxDepth v ?key (childPath ?key) d st)))
        = fst (analyzeElements maxDepth childPath d (Suc i) vs
                (snd (analyzeValue maxDepth v ?key (childPath ?key) d st')))"
      using "5.IH"(2) [OF refl refl prod.collapse] by blast
    show "fst (analyzeElements maxDepth childPath d i (v # vs) st)
        = fst (analyzeElements maxDepth childPath d i (v # vs) st')"
      unfolding analyzeElements.simps Let_def case_prod_beta fst_conv a b by (rule refl)
  qed
qed

text \<open>
  The matches that \<open>searchValue\<close> and its loops push are appended to the array they
  were given, and do not depend on what it held.
\<close>

lemma search_appends:
  "\<forall>matches. searchValue lower numToString caseSensitive sn v path matches
     = matches @ searchValue lower numToString caseSensitive sn v path []"
  "\<forall>matches. searchElements lower numToString caseSensitive sn vs index path' matches
     = matches @ searchElements lower numToString caseSensitive sn vs index path' []"
  "\<forall>matches. searchEntries lower numToString caseSensitive sn kvs path'' matches
     = matches @ searchEntries lower numToString caseSensitive sn kvs path'' []"
proof (induction lower numToString caseSensitive sn v path "m1 :: SearchMatch list"
    and lower numToString caseSensitive sn vs index path' "m2 :: SearchMatch list"
    and lower numToString caseSensitive sn kvs path'' "m3 :: SearchMatch list"
    rule: searchValue_searchElements_searchEntries.induct)
  case (1 lower numToString caseSensitive searchNormalized items path m)
  have h: "searchElements lower numToString caseSensitive searchNormalized items 0 path ms
      = ms @ searchElements lower numToString caseSensitive searchNormalized items 0 path []" for ms
    using "1.IH" by blast
  show ?case
  proof (intro allI)
    fix matches
    show "searchValue lower numToString caseSensitive searchNormalized (JArray items) path matches
        = matches @ searchValue lower numToString caseSensitive searchNormalized (JArray items) path []"
      unfolding searchValue.simps by (rule h)
  qed
next
  case (2 lower numToString caseSensitive searchNormalized kvs path m)
  have h: "searchEntries lower numToString caseSensitive searchNormalized kvs path ms
      = ms @ searchEntries lower numToString caseSensitive searchNormalized kvs path []" for ms
    using "2.IH" by blast
  show ?case
  proof (intro allI)
    fix matches
    show "searchValue lower numToString caseSensitive searchNormalized (JObject kvs) path matches
        = matches @ searchValue lower numToString caseSensitive searchNormalized (JObject kvs) path []"
      unfolding searchValue.simps by (rule h)
  qed
next
  case (5 lower numToString caseSensitive searchNormalized item items index path m)
  let ?p = "path @ [''['' @ string_of_nat index @ '']'']"
  let ?sv = "\<lambda>ms. searchValue lower numToString caseSensitive searchNormalized item ?p ms"
  let ?rest = "\<lambda>ms. searchElements lower numToString caseSensitive searchNormalized items (Suc index) path ms"
  have sv: "?sv ms = ms @ ?sv []" for ms using "5.IH"(1) by blast
  have rest: "?rest ms = ms @ ?rest []" for ms using "5.IH"(2) by blast
  show ?case
  proof (intro allI)
    fix matches
    have "searchElements lower numToString caseSensitive searchNormalized (item # items) index path matches
        = ?rest (?sv matches)" by simp
    also have "\<dots> = ?sv matches @ ?rest []" by (rule rest)
    also have "\<dots> = matches @ (?sv [] @ ?rest [])" by (subst sv) simp
    also have "?sv [] @ ?rest [] = ?rest (?sv [])" by (rule rest [symmetric])
    also have "?rest (?sv [])
        = searchElements lower numToString caseSensitive searchNormalized (item # items) index path []"
      by simp
    finally show "searchElements lower numToString caseSensitive searchNormalized (item # items) index path matches
        = matches @ searchElements lower numToString caseSensitive searchNormalized (item # items) index path []" .
  qed
next
  case (7 lower numToString caseSensitive searchNormalized key val kvs path m)
  let ?hit = "str_includes (if caseSensitive then key else lower key) searchNormalized"
  let ?new = "if ?hit then [\<lparr>match_path = path @ [key], match_value = val, matchedText = key\<rparr>] else []"
  let ?sv = "\<lambda>ms. searchValue lower numToString caseSensitive searchNormalized val (path @ [key]) ms"
  let ?rest = "\<lambda>ms. searchEntries lower numToString caseSensitive searchNormalized kvs path ms"
  have step: "searchEntries lower numToString caseSensitive searchNormalized ((key, val) # kvs) path ms
      = ?rest (?sv (ms @ ?new))" for ms
    by (simp add: Let_def)
  have sv: "?sv ms = ms @ ?sv []" for ms
    using "7.IH"(1) [OF refl refl] by blast
  have rest: "?rest ms = ms @ ?rest []" for ms
    using "7.IH"(2) [OF refl refl] by blast
  show ?case
  proof (intro allI)
    fix matches
    have "searchEntries lower numToString caseSensitive searchNormalized ((key, val) # kvs) path matches
        = ?rest (?sv (matches @ ?new))" by (rule step)
    also have "\<dots> = ?sv (matches @ ?new) @ ?rest []" by (rule rest)
    also have "\<dots> = matches @ (?new @ ?sv [] @ ?rest [])" by (subst sv) simp
    also have "?new @ ?sv [] @ ?rest [] = ?sv ([] @ ?new) @ ?rest []"
      by (subst (2) sv) simp
    also have "\<dots> = ?rest (?sv ([] @ ?new))" by (rule rest [symmetric])
    also have "\<dots> = searchEntries lower numToString caseSensitive searchNormalized ((key, val) # kvs) path []"
      by (rule step [symmetric])
    finally show "searchEntries lower numToString caseSensitive searchNormalized ((key, val) # kvs) path matches
        = matches @ searchEntries lower numToString caseSensitive searchNormalized ((key, val) # kvs) path []" .
  qed
qed (simp_all add: Let_def)

end
